theory Spec2Isabelle
  imports Complex_Main "HOL-Library.Sublist"
begin

section \<open>A model of \<open>linksender.py\<close>\<close>

text \<open>
  The script reads a link, fetches the records of the videos behind it with the extraction
  library and sends a summary of each to a fixed chat. The model follows it function by
  function. The libraries it calls are parameters of the model, and what the script does to
  the outside (printing, extraction calls, sends, delays) is kept as a trace.

  A Python \<open>str\<close> is a \<open>string\<close>, one \<open>char\<close> per code point below 256. The
  pictographs that open the fixed messages of the script lie beyond that range; they are
  written as the bytes of their UTF-8 encoding.
\<close>

section \<open>Link validation\<close>

subsection \<open>The fragment of \<open>re\<close> the three patterns use\<close>

text \<open>
  \<open>Str l\<close> is the literal text \<open>l\<close>, \<open>Seq\<close> concatenation, \<open>Alt\<close> the bar, \<open>Opt\<close> the
  question mark and \<open>ClsPlus p\<close> a character class \<open>p\<close> under \<open>+\<close>.
\<close>

datatype rx =
    Str string
  | Seq rx rx
  | Alt rx rx
  | Opt rx
  | ClsPlus "char \<Rightarrow> bool"

text \<open>
  \<open>plus_rests p s\<close> lists what is left of \<open>s\<close> after one or more leading characters of
  class \<open>p\<close>, the longest run first, as the greedy \<open>+\<close> tries them.
\<close>

fun plus_rests :: "(char \<Rightarrow> bool) \<Rightarrow> string \<Rightarrow> string list" where
  "plus_rests p [] = []"
| "plus_rests p (x # xs) = (if p x then plus_rests p xs @ [xs] else [])"

text \<open>
  \<open>rests r s\<close> lists, in the order a backtracking matcher reaches them, the remainders
  of \<open>s\<close> after a match of \<open>r\<close> at its start.
\<close>

fun rests :: "rx \<Rightarrow> string \<Rightarrow> string list" where
  "rests (Str l) s = (if prefix l s then [drop (length l) s] else [])"
| "rests (Seq a b) s = concat (map (rests b) (rests a s))"
| "rests (Alt a b) s = rests a s @ rests b s"
| "rests (Opt a) s = rests a s @ [s]"
| "rests (ClsPlus p) s = plus_rests p s"

text \<open>\<open>bool(pattern.match(s))\<close>: a match object exists when some remainder does.\<close>

definition re_match :: "rx \<Rightarrow> string \<Rightarrow> bool" where
  "re_match r s = (rests r s \<noteq> [])"

text \<open>
  \<open>\w\<close> of a \<open>str\<close> pattern: the alphanumeric characters and the underscore. Below 128
  these are the digits, the letters and \<open>_\<close>; from 128 to 255 they are the letters and
  numeric characters of Latin-1.
\<close>

definition in_range :: "nat \<Rightarrow> nat \<Rightarrow> char \<Rightarrow> bool" where
  "in_range lo hi c = (lo \<le> (of_char c :: nat) \<and> (of_char c :: nat) \<le> hi)"

definition word_char :: "char \<Rightarrow> bool" where
  "word_char c =
     (in_range 0x30 0x39 c \<or> in_range 0x41 0x5A c \<or> c = CHR ''_'' \<or> in_range 0x61 0x7A c
      \<or> in_range 0xAA 0xAA c \<or> in_range 0xB2 0xB3 c \<or> in_range 0xB5 0xB5 c
      \<or> in_range 0xB9 0xBA c \<or> in_range 0xBC 0xBE c \<or> in_range 0xC0 0xD6 c
      \<or> in_range 0xD8 0xF6 c \<or> in_range 0xF8 0xFF c)"

text \<open>The class \<open>[\w-]\<close>.\<close>

definition word_or_hyphen :: "char \<Rightarrow> bool" where
  "word_or_hyphen c = (word_char c \<or> c = CHR ''-'')"

text \<open>The shared head \<open>(https?://)?(www\.)?\<close> of the three patterns.\<close>

definition scheme_www :: "rx \<Rightarrow> rx" where
  "scheme_www r =
     Seq (Opt (Seq (Str ''http'') (Seq (Opt (Str ''s'')) (Str ''://''))))
         (Seq (Opt (Str ''www.'')) r)"

definition YOUTUBE_VIDEO_REGEX :: rx where
  "YOUTUBE_VIDEO_REGEX =
     scheme_www (Seq (Alt (Str ''youtube.com/watch?v='') (Str ''youtu.be/''))
                     (ClsPlus word_or_hyphen))"

definition YOUTUBE_PLAYLIST_REGEX :: rx where
  "YOUTUBE_PLAYLIST_REGEX =
     scheme_www (Seq (Str ''youtube.com/playlist?list='') (ClsPlus word_or_hyphen))"

definition YOUTUBE_CHANNEL_REGEX :: rx where
  "YOUTUBE_CHANNEL_REGEX =
     scheme_www (Seq (Str ''youtube.com/'')
                     (Seq (Alt (Str ''channel/'') (Alt (Str ''c/'') (Str ''user/'')))
                          (ClsPlus word_or_hyphen)))"

definition validate_link :: "string \<Rightarrow> string \<Rightarrow> bool" where
  "validate_link link mode =
     (if mode = ''1'' then re_match YOUTUBE_VIDEO_REGEX link
      else if mode = ''2'' then re_match YOUTUBE_PLAYLIST_REGEX link
      else if mode = ''3'' then re_match YOUTUBE_CHANNEL_REGEX link
      else False)"

subsection \<open>What a pattern denotes\<close>

text \<open>The texts a pattern matches in full, read off the pattern's syntax.\<close>

fun lang :: "rx \<Rightarrow> string set" where
  "lang (Str l) = {l}"
| "lang (Seq a b) = {u @ v | u v. u \<in> lang a \<and> v \<in> lang b}"
| "lang (Alt a b) = lang a \<union> lang b"
| "lang (Opt a) = insert [] (lang a)"
| "lang (ClsPlus p) = {w. w \<noteq> [] \<and> (\<forall>c \<in> set w. p c)}"

text \<open>The pattern a mode selects; \<open>None\<close> for a mode that is none of the three.\<close>

definition mode_pattern :: "string \<Rightarrow> rx option" where
  "mode_pattern mode =
     (if mode = ''1'' then Some YOUTUBE_VIDEO_REGEX
      else if mode = ''2'' then Some YOUTUBE_PLAYLIST_REGEX
      else if mode = ''3'' then Some YOUTUBE_CHANNEL_REGEX
      else None)"

text \<open>A text has a matching prefix when it splits into a full match and a rest.\<close>

definition prefix_matches :: "rx \<Rightarrow> string \<Rightarrow> bool" where
  "prefix_matches r s = (\<exists>u v. s = u @ v \<and> u \<in> lang r)"

section \<open>Values and records of the extraction library\<close>

text \<open>
  The field values the program reads are \<open>None\<close>, integers and strings. A dictionary is
  an association list read by its first binding of a key.
\<close>

datatype pyval = PNone | PInt int | PStr string

datatype exn = TypeError | BotError

type_synonym pydict = "(string \<times> pyval) list"

text \<open>Truth value of an object, as \<open>if x\<close>, \<open>not x\<close> and \<open>x or y\<close> test it.\<close>

fun truthy :: "pyval \<Rightarrow> bool" where
  "truthy PNone = False"
| "truthy (PInt n) = (n \<noteq> 0)"
| "truthy (PStr s) = (s \<noteq> [])"

text \<open>\<open>k in d\<close> and \<open>d.get(k, default)\<close>.\<close>

definition key_in :: "string \<Rightarrow> pydict \<Rightarrow> bool" where
  "key_in k d = (map_of d k \<noteq> None)"

definition dict_get :: "pydict \<Rightarrow> string \<Rightarrow> pyval \<Rightarrow> pyval" where
  "dict_get d k dflt = (case map_of d k of None \<Rightarrow> dflt | Some v \<Rightarrow> v)"

text \<open>
  An info dictionary of the extraction library: its scalar fields, and its \<open>entries\<close>
  key, whose value is a list of entry dictionaries (\<open>None\<close> when the key is missing).
\<close>

record info =
  attrs :: pydict
  entries :: "pydict list option"

text \<open>An info dictionary is true when it has a key.\<close>

definition info_truthy :: "info \<Rightarrow> bool" where
  "info_truthy i = (attrs i \<noteq> [] \<or> entries i \<noteq> None)"

section \<open>Formatting\<close>

text \<open>Decimal digits of a natural number, most significant first.\<close>

definition digit_char :: "nat \<Rightarrow> char" where
  "digit_char d = ''0123456789'' ! d"

function dec_digits :: "nat \<Rightarrow> string" where
  "dec_digits n =
     (if n < 10 then [digit_char n] else dec_digits (n div 10) @ [digit_char (n mod 10)])"
  by pat_completeness auto
termination
  by (relation "measure (\<lambda>n. n)") auto

declare dec_digits.simps [simp del]

text \<open>The format specifications \<open>d\<close> and \<open>02d\<close>; the sign counts towards the width.\<close>

definition zfill :: "nat \<Rightarrow> string \<Rightarrow> string" where
  "zfill w ds = replicate (w - length ds) CHR ''0'' @ ds"

definition fmt_d :: "int \<Rightarrow> string" where
  "fmt_d n = (if n < 0 then CHR ''-'' # dec_digits (nat (- n)) else dec_digits (nat n))"

definition fmt_02d :: "int \<Rightarrow> string" where
  "fmt_02d n =
     (if n < 0 then CHR ''-'' # zfill 1 (dec_digits (nat (- n))) else zfill 2 (dec_digits (nat n)))"

text \<open>\<open>str(x)\<close>, as an f-string renders a value.\<close>

fun py_str :: "pyval \<Rightarrow> string" where
  "py_str PNone = ''None''"
| "py_str (PInt n) = fmt_d n"
| "py_str (PStr s) = s"

text \<open>\<open>divmod\<close> on integers with a positive divisor: floor division and its remainder.\<close>

definition divmod :: "int \<Rightarrow> int \<Rightarrow> int \<times> int" where
  "divmod a b = (a div b, a mod b)"

definition format_duration :: "pyval \<Rightarrow> exn + string" where
  "format_duration seconds =
     (case seconds of
        PNone \<Rightarrow> Inr ''Unknown''
      | PStr _ \<Rightarrow> Inl TypeError
      | PInt n \<Rightarrow>
          (let (m, s) = divmod n 60;
               (h, m) = divmod m 60
           in if h \<noteq> 0
              then Inr (fmt_d h @ '':'' @ fmt_02d m @ '':'' @ fmt_02d s)
              else Inr (fmt_d m @ '':'' @ fmt_02d s)))"

text \<open>
  The rendering the specification words give: the form with hours when the hours are
  positive, the form without them otherwise.
\<close>

definition spec_format_duration :: "int \<Rightarrow> string" where
  "spec_format_duration n =
     (let s = n mod 60; m = (n div 60) mod 60; h = (n div 60) div 60
      in if 0 < h then fmt_d h @ '':'' @ fmt_02d m @ '':'' @ fmt_02d s
         else fmt_d m @ '':'' @ fmt_02d s)"

text \<open>The number a string of decimal digits stands for.\<close>

definition dec_value :: "string \<Rightarrow> nat" where
  "dec_value ds = foldl (\<lambda>a c. 10 * a + (of_char c - 48)) 0 ds"

section \<open>The outside world\<close>

text \<open>The options dictionary handed to \<open>YoutubeDL\<close>.\<close>

record options =
  quiet :: bool
  skip_download :: bool
  ignoreerrors :: bool
  extract_flat :: bool
  forceurl :: bool
  nocheckcertificate :: bool

text \<open>
  One call of \<open>extract_info(url, download=False)\<close> either raises an \<open>Exception\<close> or
  returns an info dictionary or \<open>None\<close>.
\<close>

datatype extract_outcome = Raised | Returned "info option"

text \<open>
  The two calls on the bot, \<open>send_photo(chat_id, photo, caption)\<close> and
  \<open>send_message(chat_id, text)\<close>, and how a call ends: it returns, raises a
  \<open>TelegramError\<close>, or raises something else.
\<close>

datatype request = SendPhoto string pyval string | SendMessage string string

datatype send_outcome = Sent | RaisedTelegramError | RaisedOther

text \<open>What the program does to the outside, in the order it does it.\<close>

datatype event =
    Print string
  | Extract options string extract_outcome
  | Send request send_outcome
  | Sleep rat

text \<open>
  The libraries the program calls are parameters: the extraction call and the bot, which
  answer from a world \<open>'w\<close> and change it, and the two \<open>datetime\<close> functions, where
  \<open>strptime\<close> gives \<open>None\<close> when it raises.
\<close>

record ('w, 'd) env =
  extract_info :: "options \<Rightarrow> string \<Rightarrow> 'w \<Rightarrow> extract_outcome \<times> 'w"
  bot_send :: "request \<Rightarrow> 'w \<Rightarrow> send_outcome \<times> 'w"
  strptime :: "string \<Rightarrow> string \<Rightarrow> 'd option"
  strftime :: "'d \<Rightarrow> string \<Rightarrow> string"

record 'w st =
  trace :: "event list"
  world :: 'w

definition py_print :: "string \<Rightarrow> 'w st \<Rightarrow> 'w st" where
  "py_print s st = st\<lparr>trace := trace st @ [Print s]\<rparr>"

definition sleep :: "rat \<Rightarrow> 'w st \<Rightarrow> 'w st" where
  "sleep t st = st\<lparr>trace := trace st @ [Sleep t]\<rparr>"

definition call_extract ::
  "('w, 'd) env \<Rightarrow> options \<Rightarrow> string \<Rightarrow> 'w st \<Rightarrow> extract_outcome \<times> 'w st" where
  "call_extract env opts url st =
     (let (r, w) = extract_info env opts url (world st)
      in (r, st\<lparr>trace := trace st @ [Extract opts url r], world := w\<rparr>))"

definition call_bot :: "('w, 'd) env \<Rightarrow> request \<Rightarrow> 'w st \<Rightarrow> send_outcome \<times> 'w st" where
  "call_bot env req st =
     (let (r, w) = bot_send env req (world st)
      in (r, st\<lparr>trace := trace st @ [Send req r], world := w\<rparr>))"

section \<open>Fetching\<close>

definition ydl_opts :: "string \<Rightarrow> options" where
  "ydl_opts mode =
     \<lparr>quiet = True, skip_download = True, ignoreerrors = True,
      extract_flat = (if mode \<in> {''2'', ''3''} then True else False),
      forceurl = True, nocheckcertificate = True\<rparr>"

text \<open>The two error messages; the first opens with U+274C, the second with U+26A0 U+FE0F.\<close>

definition invalid_link_msg :: string where
  "invalid_link_msg = [CHR 0xE2, CHR 0x9D, CHR 0x8C] @ '' Invalid YouTube link''"

definition no_videos_msg :: string where
  "no_videos_msg =
     [CHR 0xE2, CHR 0x9A, CHR 0xA0, CHR 0xEF, CHR 0xB8, CHR 0x8F] @ '' No videos found.''"

text \<open>The two progress lines; they open with U+1F50E and U+1F4C2.\<close>

definition fetching_msg :: string where
  "fetching_msg =
     [CHR 0xF0, CHR 0x9F, CHR 0x94, CHR 0x8E] @ '' Fetching videos from given link...''"

definition found_msg :: "nat \<Rightarrow> string \<Rightarrow> string" where
  "found_msg n mode =
     [CHR 0xF0, CHR 0x9F, CHR 0x93, CHR 0x82] @ '' Found '' @ py_str (PInt (int n))
     @ '' videos in '' @ (if mode = ''2'' then ''playlist'' else ''channel'')"

text \<open>
  The URL of a listed entry (lines 114 to 121): from its \<open>url\<close>, else from its \<open>id\<close>, else
  the entry is passed over.
\<close>

definition entry_url :: "pydict \<Rightarrow> string option" where
  "entry_url e =
     (if key_in ''url'' e then Some (''https://youtu.be/'' @ py_str (dict_get e ''url'' PNone))
      else if key_in ''id'' e then Some (''https://youtu.be/'' @ py_str (dict_get e ''id'' PNone))
      else None)"

text \<open>The loop over the entries (lines 112 to 128), \<open>videos\<close> the list collected so far.\<close>

fun fetch_entries ::
  "('w, 'd) env \<Rightarrow> options \<Rightarrow> pydict list \<Rightarrow> info list \<Rightarrow> 'w st \<Rightarrow> info list \<times> 'w st" where
  "fetch_entries env opts [] videos st = (videos, st)"
| "fetch_entries env opts (e # es) videos st =
     (case entry_url e of
        None \<Rightarrow> fetch_entries env opts es videos st
      | Some video_url \<Rightarrow>
          (case call_extract env opts video_url st of
             (Raised, st') \<Rightarrow> fetch_entries env opts es videos st'
           | (Returned None, st') \<Rightarrow> fetch_entries env opts es videos st'
           | (Returned (Some video_info), st') \<Rightarrow>
               if info_truthy video_info
               then fetch_entries env opts es (videos @ [video_info]) st'
               else fetch_entries env opts es videos st'))"

text \<open>
  The pair the function returns is \<open>(None, message)\<close> or \<open>(videos, None)\<close>: here
  \<open>Inl message\<close> or \<open>Inr videos\<close>.
\<close>

definition fetch_videos_info ::
  "('w, 'd) env \<Rightarrow> string \<Rightarrow> string \<Rightarrow> 'w st \<Rightarrow> (string + info list) \<times> 'w st" where
  "fetch_videos_info env url mode st =
     (let st1 = py_print fetching_msg st;
          opts = ydl_opts mode
      in case call_extract env opts url st1 of
           (Raised, st2) \<Rightarrow> (Inl invalid_link_msg, st2)
         | (Returned None, st2) \<Rightarrow> (Inl no_videos_msg, st2)
         | (Returned (Some info), st2) \<Rightarrow>
             if mode = ''1''
             then if \<not> key_in ''title'' (attrs info)
                  then (Inl no_videos_msg, st2)
                  else (Inr [info], st2)
             else
               (let es = (case entries info of None \<Rightarrow> [] | Some l \<Rightarrow> l)
                in if es = [] then (Inl no_videos_msg, st2)
                   else
                     (let st3 = py_print (found_msg (length es) mode) st2;
                          (videos, st4) = fetch_entries env opts es [] st3
                      in if videos = [] then (Inl no_videos_msg, st4)
                         else (Inr videos, st4))))"

section \<open>Notifying\<close>

text \<open>
  \<open>'-' in date_str\<close> and both \<open>strptime\<close> calls sit inside the \<open>try\<close>: a value that is
  not a string raises there and gives \<open>Unknown\<close>, like a string that does not parse.
\<close>

definition format_date :: "('w, 'd) env \<Rightarrow> pyval \<Rightarrow> string" where
  "format_date env date_str =
     (case date_str of
        PStr s \<Rightarrow>
          (case strptime env s (if CHR ''-'' \<in> set s then ''%Y-%m-%d'' else ''%Y%m%d'') of
             None \<Rightarrow> ''Unknown''
           | Some dt \<Rightarrow> strftime env dt ''%Y-%m-%d'')
      | PNone \<Rightarrow> ''Unknown''
      | PInt _ \<Rightarrow> ''Unknown'')"

definition TELEGRAM_CHAT_ID :: string where
  "TELEGRAM_CHAT_ID = ''6956029558''"

text \<open>
  Line 136. \<open>or\<close> gives its left operand when that is true and otherwise evaluates the
  right one; \<open>+\<close> of a string and a value that is not a string raises \<open>TypeError\<close>.
\<close>

definition canonical_url :: "info \<Rightarrow> exn + pyval" where
  "canonical_url video =
     (let w = dict_get (attrs video) ''webpage_url'' PNone
      in if truthy w then Inr w
         else
           (let u = dict_get (attrs video) ''url'' PNone
            in if truthy u then Inr u
               else
                 (case dict_get (attrs video) ''id'' (PStr '''') of
                    PStr i \<Rightarrow> Inr (PStr (''https://youtu.be/'' @ i))
                  | PNone \<Rightarrow> Inl TypeError
                  | PInt _ \<Rightarrow> Inl TypeError)))"

text \<open>The four labels of the caption open with U+1F3AC, U+1F517, U+23F1 and U+1F4C5.\<close>

definition title_label :: string where
  "title_label = [CHR 0xF0, CHR 0x9F, CHR 0x8E, CHR 0xAC] @ '' Title: ''"

definition link_label :: string where
  "link_label = [CHR 0xF0, CHR 0x9F, CHR 0x94, CHR 0x97] @ '' Link: ''"

definition duration_label :: string where
  "duration_label = [CHR 0xE2, CHR 0x8F, CHR 0xB1] @ '' Duration: ''"

definition date_label :: string where
  "date_label = [CHR 0xF0, CHR 0x9F, CHR 0x93, CHR 0x85] @ '' Date: ''"

text \<open>
  Lines 135 to 145, the part of \<open>send_video_info\<close> before the \<open>try\<close>; an exception raised
  here leaves the function.
\<close>

definition caption :: "('w, 'd) env \<Rightarrow> info \<Rightarrow> exn + string" where
  "caption env video =
     (let title = dict_get (attrs video) ''title'' (PStr ''Unknown Title'')
      in case canonical_url video of
           Inl e \<Rightarrow> Inl e
         | Inr url \<Rightarrow>
             (case format_duration (dict_get (attrs video) ''duration'' PNone) of
                Inl e \<Rightarrow> Inl e
              | Inr duration \<Rightarrow>
                  (let upload_date = format_date env (dict_get (attrs video) ''upload_date'' (PStr ''''))
                   in Inr (title_label @ py_str title @ [CHR 0x0A]
                           @ link_label @ py_str url @ [CHR 0x0A]
                           @ duration_label @ duration @ [CHR 0x0A]
                           @ date_label @ upload_date))))"

text \<open>The request of lines 148 to 153.\<close>

definition request_for :: "info \<Rightarrow> string \<Rightarrow> request" where
  "request_for video cap =
     (let thumbnail = dict_get (attrs video) ''thumbnail'' PNone
      in if truthy thumbnail then SendPhoto TELEGRAM_CHAT_ID thumbnail cap
         else SendMessage TELEGRAM_CHAT_ID cap)"

definition send_video_info ::
  "('w, 'd) env \<Rightarrow> info \<Rightarrow> 'w st \<Rightarrow> (exn + bool) \<times> 'w st" where
  "send_video_info env video st =
     (case caption env video of
        Inl e \<Rightarrow> (Inl e, st)
      | Inr cap \<Rightarrow>
          (case call_bot env (request_for video cap) st of
             (Sent, st') \<Rightarrow> (Inr True, st')
           | (RaisedTelegramError, st') \<Rightarrow> (Inr False, st')
           | (RaisedOther, st') \<Rightarrow> (Inl BotError, st')))"

section \<open>The sending phase of the session loop\<close>

text \<open>The three lines it prints open with U+27A1 U+FE0F, U+26A0 U+FE0F and U+1F389.\<close>

definition sending_msg :: "pyval \<Rightarrow> string" where
  "sending_msg title =
     [CHR 0xE2, CHR 0x9E, CHR 0xA1, CHR 0xEF, CHR 0xB8, CHR 0x8F] @ '' Sending: [''
     @ py_str title @ '']''"

definition retry_msg :: string where
  "retry_msg =
     [CHR 0xE2, CHR 0x9A, CHR 0xA0, CHR 0xEF, CHR 0xB8, CHR 0x8F]
     @ '' Retry sending failed message.''"

definition done_msg :: string where
  "done_msg =
     [CHR 0xF0, CHR 0x9F, CHR 0x8E, CHR 0x89] @ '' Done! All videos sent successfully.''
     @ [CHR 0x0A]"

text \<open>
  The \<open>for\<close> loop of \<open>main\<close> (lines 186 to 194). An exception that leaves
  \<open>send_video_info\<close> leaves the loop, and \<open>main\<close>, with it.
\<close>

fun send_each :: "('w, 'd) env \<Rightarrow> info list \<Rightarrow> 'w st \<Rightarrow> (exn + unit) \<times> 'w st" where
  "send_each env [] st = (Inr (), st)"
| "send_each env (video # rest) st =
     (let title = dict_get (attrs video) ''title'' (PStr ''Unknown Title'');
          st1 = py_print (sending_msg title) st
      in case send_video_info env video st1 of
           (Inl e, st2) \<Rightarrow> (Inl e, st2)
         | (Inr success, st2) \<Rightarrow>
             if \<not> success then send_each env rest (py_print retry_msg st2)
             else send_each env rest (sleep (1 / 2) st2))"

text \<open>The loop and the line after it (line 196).\<close>

definition sending_phase :: "('w, 'd) env \<Rightarrow> info list \<Rightarrow> 'w st \<Rightarrow> (exn + unit) \<times> 'w st" where
  "sending_phase env videos st =
     (case send_each env videos st of
        (Inl e, st') \<Rightarrow> (Inl e, st')
      | (Inr u, st') \<Rightarrow> (Inr (), py_print done_msg st'))"

section \<open>Reading a run\<close>

text \<open>
  The functions of this section are not in the program; the theorems use them to say what
  a run did.
\<close>

text \<open>The URLs of the entries that have one, in listing order.\<close>

definition entry_urls :: "pydict list \<Rightarrow> string list" where
  "entry_urls es = List.map_filter entry_url es"

text \<open>Calling the extractor once for each URL of a list, in order.\<close>

fun extract_all ::
  "('w, 'd) env \<Rightarrow> options \<Rightarrow> string list \<Rightarrow> 'w \<Rightarrow> extract_outcome list \<times> 'w" where
  "extract_all env opts [] w = ([], w)"
| "extract_all env opts (u # us) w =
     (let (r, w') = extract_info env opts u w;
          (rs, w'') = extract_all env opts us w'
      in (r # rs, w''))"

text \<open>The records among the outcomes of a list of calls: returned, and true.\<close>

fun fetched :: "extract_outcome list \<Rightarrow> info list" where
  "fetched [] = []"
| "fetched (Raised # os) = fetched os"
| "fetched (Returned None # os) = fetched os"
| "fetched (Returned (Some i) # os) = (if info_truthy i then i # fetched os else fetched os)"

text \<open>The extraction calls of a trace: options and URL of each, in order.\<close>

fun extract_calls :: "event list \<Rightarrow> (options \<times> string) list" where
  "extract_calls [] = []"
| "extract_calls (Extract opts url r # evs) = (opts, url) # extract_calls evs"
| "extract_calls (Print s # evs) = extract_calls evs"
| "extract_calls (Send req r # evs) = extract_calls evs"
| "extract_calls (Sleep t # evs) = extract_calls evs"

text \<open>The request the notifier makes for a record whose caption can be built.\<close>

definition the_request :: "('w, 'd) env \<Rightarrow> info \<Rightarrow> request" where
  "the_request env video =
     request_for video (case caption env video of Inl e \<Rightarrow> [] | Inr cap \<Rightarrow> cap)"

text \<open>Calling the bot once for each request of a list, in order.\<close>

fun bot_all :: "('w, 'd) env \<Rightarrow> request list \<Rightarrow> 'w \<Rightarrow> send_outcome list \<times> 'w" where
  "bot_all env [] w = ([], w)"
| "bot_all env (q # qs) w =
     (let (r, w') = bot_send env q w;
          (rs, w'') = bot_all env qs w'
      in (r # rs, w''))"

text \<open>
  What the sending phase does for one record whose send ended with \<open>r\<close>: the status
  line, the send, and then the delay after a send that returned, the warning after one
  that raised.
\<close>

definition record_events :: "('w, 'd) env \<Rightarrow> info \<Rightarrow> send_outcome \<Rightarrow> event list" where
  "record_events env video r =
     [Print (sending_msg (dict_get (attrs video) ''title'' (PStr ''Unknown Title''))),
      Send (the_request env video) r]
     @ (if r = Sent then [Sleep (1 / 2)] else [Print retry_msg])"

text \<open>The sends and the delays of a trace, in order.\<close>

fun timeline :: "event list \<Rightarrow> (send_outcome + rat) list" where
  "timeline [] = []"
| "timeline (Send req r # evs) = Inl r # timeline evs"
| "timeline (Sleep t # evs) = Inr t # timeline evs"
| "timeline (Print s # evs) = timeline evs"
| "timeline (Extract opts url r # evs) = timeline evs"

section \<open>A small world to run the program in\<close>

text \<open>
  A playlist of five entries, of which the second and the fourth can be extracted; every
  other link raises, but for the third entry, which gives \<open>None\<close>. The bot raises a
  \<open>TelegramError\<close> on the first call made in a world and returns afterwards. The world
  counts the calls.
\<close>

definition demo_video :: "string \<Rightarrow> info" where
  "demo_video i =
     \<lparr>attrs = [(''id'', PStr i), (''title'', PStr (''Video '' @ i)), (''duration'', PInt 65)],
      entries = None\<rparr>"

definition demo_playlist :: info where
  "demo_playlist =
     \<lparr>attrs = [(''title'', PStr ''Mix'')],
      entries = Some [[(''id'', PStr ''v1'')], [(''url'', PStr ''v2'')], [(''id'', PStr ''v3'')],
                      [(''id'', PStr ''v4'')], [(''id'', PStr ''v5'')]]\<rparr>"

definition demo_extract :: "options \<Rightarrow> string \<Rightarrow> nat \<Rightarrow> extract_outcome \<times> nat" where
  "demo_extract opts url w =
     (if url = ''https://www.youtube.com/playlist?list=PL1'' then Returned (Some demo_playlist)
      else if url = ''https://youtu.be/v2'' then Returned (Some (demo_video ''v2''))
      else if url = ''https://youtu.be/v3'' then Returned None
      else if url = ''https://youtu.be/v4'' then Returned (Some (demo_video ''v4''))
      else Raised,
      Suc w)"

definition demo_env :: "(nat, string) env" where
  "demo_env =
     \<lparr>extract_info = demo_extract,
      bot_send = (\<lambda>req w. (if w = 0 then RaisedTelegramError else Sent, Suc w)),
      strptime = (\<lambda>s f. if s = ''20230101'' then Some ''2023-01-01'' else None),
      strftime = (\<lambda>d f. d)\<rparr>"

definition st0 :: "nat st" where
  "st0 = \<lparr>trace = [], world = 0\<rparr>"

section \<open>Matcher and denotation agree\<close>

lemma set_plus_rests:
  "set (plus_rests p s) = {v. \<exists>u. s = u @ v \<and> u \<noteq> [] \<and> (\<forall>c \<in> set u. p c)}"
proof (induction s)
  case Nil
  then show ?case by simp
next
  case (Cons x xs)
  show ?case
  proof (cases "p x")
    case False
    have "\<And>u v. x # xs = u @ v \<Longrightarrow> u \<noteq> [] \<Longrightarrow> \<not> (\<forall>c \<in> set u. p c)"
      using False by (case_tac u) auto
    then show ?thesis using False by auto
  next
    case True
    show ?thesis
    proof (rule set_eqI, rule iffI)
      fix v assume "v \<in> set (plus_rests p (x # xs))"
      then consider "v \<in> set (plus_rests p xs)" | "v = xs"
        using True by auto
      then show "v \<in> {v. \<exists>u. x # xs = u @ v \<and> u \<noteq> [] \<and> (\<forall>c \<in> set u. p c)}"
      proof cases
        case 1
        then obtain u where "xs = u @ v" "\<forall>c \<in> set u. p c"
          using Cons.IH by auto
        then have "x # xs = (x # u) @ v \<and> x # u \<noteq> [] \<and> (\<forall>c \<in> set (x # u). p c)"
          using True by simp
        then show ?thesis by blast
      next
        case 2
        then have "x # xs = [x] @ v \<and> [x] \<noteq> [] \<and> (\<forall>c \<in> set [x]. p c)"
          using True by simp
        then show ?thesis by blast
      qed
    next
      fix v assume "v \<in> {v. \<exists>u. x # xs = u @ v \<and> u \<noteq> [] \<and> (\<forall>c \<in> set u. p c)}"
      then obtain u where u: "x # xs = u @ v" "u \<noteq> []" "\<forall>c \<in> set u. p c"
        by blast
      then obtain u' where u': "u = x # u'" "xs = u' @ v"
        by (cases u) auto
      show "v \<in> set (plus_rests p (x # xs))"
      proof (cases "u' = []")
        case True
        then show ?thesis using u' \<open>p x\<close> by simp
      next
        case False
        then have "v \<in> set (plus_rests p xs)"
          using Cons.IH u u' by auto
        then show ?thesis using \<open>p x\<close> by simp
      qed
    qed
  qed
qed

lemma set_rests: "set (rests r s) = {v. \<exists>u \<in> lang r. s = u @ v}"
proof (induction r arbitrary: s)
  case (Str l)
  show ?case by (auto simp: prefix_def)
next
  case (Seq a b)
  show ?case
  proof (rule set_eqI, rule iffI)
    fix v assume "v \<in> set (rests (Seq a b) s)"
    then obtain m where "m \<in> set (rests a s)" "v \<in> set (rests b m)"
      by auto
    then obtain u1 u2 where "u1 \<in> lang a" "s = u1 @ m" "u2 \<in> lang b" "m = u2 @ v"
      using Seq.IH by blast
    then have "u1 @ u2 \<in> lang (Seq a b) \<and> s = (u1 @ u2) @ v"
      by auto
    then show "v \<in> {v. \<exists>u \<in> lang (Seq a b). s = u @ v}" by blast
  next
    fix v assume "v \<in> {v. \<exists>u \<in> lang (Seq a b). s = u @ v}"
    then obtain u1 u2 where u: "u1 \<in> lang a" "u2 \<in> lang b" "s = (u1 @ u2) @ v"
      by auto
    then have "u2 @ v \<in> set (rests a s)"
      using Seq.IH(1) [of s] by auto
    moreover have "v \<in> set (rests b (u2 @ v))"
      using Seq.IH(2) [of "u2 @ v"] u by auto
    ultimately show "v \<in> set (rests (Seq a b) s)"
      by auto
  qed
next
  case (Alt a b)
  then show ?case by auto
next
  case (Opt a)
  then show ?case by auto
next
  case (ClsPlus p)
  show ?case by (auto simp: set_plus_rests)
qed

lemma re_match_iff: "re_match r s = prefix_matches r s"
proof -
  have "re_match r s = (set (rests r s) \<noteq> {})"
    by (simp add: re_match_def)
  also have "\<dots> = prefix_matches r s"
    unfolding set_rests prefix_matches_def by blast
  finally show ?thesis .
qed

lemma prefix_matches_append: "prefix_matches r s \<Longrightarrow> prefix_matches r (s @ t)"
  unfolding prefix_matches_def by (metis append.assoc)

lemma validate_link_mode_pattern:
  "validate_link link mode =
     (case mode_pattern mode of None \<Rightarrow> False | Some r \<Rightarrow> re_match r link)"
  by (simp add: validate_link_def mode_pattern_def)

section \<open>Claims on link validation\<close>

text \<open>
  C7. Validation matches the pattern of the mode at the start of the string only: a link
  validates exactly when some prefix of it is a full match of the mode's pattern, so a
  link that validates still validates with any text appended, a link without a matching
  prefix is rejected, and every mode other than \<open>1\<close>, \<open>2\<close> and \<open>3\<close> rejects every link.
\<close>

theorem validate_link_prefix_match:
  "(validate_link link mode \<longleftrightarrow>
      (\<exists>r. mode_pattern mode = Some r \<and> prefix_matches r link))
   \<and> (validate_link link mode \<longrightarrow> validate_link (link @ trailing) mode)
   \<and> (mode \<notin> {''1'', ''2'', ''3''} \<longrightarrow> \<not> validate_link link mode)"
proof (intro conjI impI)
  show iff: "validate_link link mode \<longleftrightarrow>
      (\<exists>r. mode_pattern mode = Some r \<and> prefix_matches r link)" for link
    by (cases "mode_pattern mode") (simp_all add: validate_link_mode_pattern re_match_iff)
  show "validate_link (link @ trailing) mode" if "validate_link link mode"
    using that iff [of link] iff [of "link @ trailing"] prefix_matches_append by blast
  show "\<not> validate_link link mode" if "mode \<notin> {''1'', ''2'', ''3''}"
    using that by (simp add: validate_link_def)
qed

theorem validate_link_prefix_match_witness:
  "validate_link ''https://youtu.be/abc-1'' ''1''
   \<and> validate_link (''https://youtu.be/abc-1'' @ '' trailing text'') ''1''
   \<and> ''4'' \<notin> {''1'', ''2'', ''3''}
   \<and> \<not> validate_link ''https://youtu.be/abc-1'' ''4''"
proof -
  have v: "validate_link ''https://youtu.be/abc-1'' ''1''"
    by (simp add: validate_link_def re_match_def YOUTUBE_VIDEO_REGEX_def scheme_www_def
        word_or_hyphen_def word_char_def in_range_def)
  have m: "''4'' \<notin> {''1'', ''2'', ''3''}"
    by simp
  show ?thesis
    using v m
      validate_link_prefix_match [of "''https://youtu.be/abc-1''" "''1''" "'' trailing text''"]
      validate_link_prefix_match [of "''https://youtu.be/abc-1''" "''4''" "[]"]
    by blast
qed

section \<open>Duration formatting\<close>

lemma dec_digits_small: "n < 10 \<Longrightarrow> dec_digits n = [digit_char n]"
  by (subst dec_digits.simps) simp

lemma dec_digits_two:
  "10 \<le> n \<Longrightarrow> n < 100 \<Longrightarrow> dec_digits n = [digit_char (n div 10), digit_char (n mod 10)]"
  by (subst dec_digits.simps) (simp add: dec_digits_small)

lemma fmt_02d_two:
  "0 \<le> x \<Longrightarrow> x < 60 \<Longrightarrow>
   fmt_02d x = (if x < 10 then [CHR ''0'', digit_char (nat x)]
                else [digit_char (nat x div 10), digit_char (nat x mod 10)])"
proof -
  assume x: "0 \<le> x" "x < 60"
  show ?thesis
  proof (cases "x < 10")
    case True
    then have "nat x < 10" using x by auto
    then show ?thesis using x True by (simp add: fmt_02d_def zfill_def dec_digits_small)
  next
    case False
    then have "10 \<le> nat x" "nat x < 100" using x by auto
    then show ?thesis using x False by (simp add: fmt_02d_def zfill_def dec_digits_two)
  qed
qed

lemma fmt_d_small:
  "0 \<le> x \<Longrightarrow> x < 60 \<Longrightarrow>
   fmt_d x = (if x < 10 then [digit_char (nat x)]
              else [digit_char (nat x div 10), digit_char (nat x mod 10)])"
proof -
  assume x: "0 \<le> x" "x < 60"
  show ?thesis
  proof (cases "x < 10")
    case True
    then have "nat x < 10" using x by auto
    then show ?thesis using x True by (simp add: fmt_d_def dec_digits_small)
  next
    case False
    then have "10 \<le> nat x" "nat x < 100" using x by auto
    then show ?thesis using x False by (simp add: fmt_d_def dec_digits_two)
  qed
qed

lemma format_duration_decomp:
  "format_duration (PInt n) =
     Inr (if n div 3600 \<noteq> 0
          then fmt_d (n div 3600) @ '':'' @ fmt_02d ((n div 60) mod 60) @ '':'' @ fmt_02d (n mod 60)
          else fmt_d ((n div 60) mod 60) @ '':'' @ fmt_02d (n mod 60))"
proof -
  have "(n div 60) div 60 = n div 3600"
    using zdiv_zmult2_eq [of 60 n 60] by simp
  then show ?thesis
    by (simp add: format_duration_def divmod_def)
qed

lemma digit_char_code: "d < 10 \<Longrightarrow> (of_char (digit_char d) :: nat) = 48 + d"
proof -
  assume "d < 10"
  then have "d \<in> {0, 1, 2, 3, 4, 5, 6, 7, 8, 9}"
    by auto
  then show ?thesis
    by (auto simp: digit_char_def)
qed

lemma dec_value_snoc: "dec_value (ds @ [c]) = 10 * dec_value ds + (of_char c - 48)"
  by (simp add: dec_value_def)

lemma dec_value_dec_digits: "dec_value (dec_digits n) = n"
proof (induction n rule: dec_digits.induct)
  case (1 n)
  show ?case
  proof (cases "n < 10")
    case True
    then show ?thesis
      by (subst dec_digits.simps) (simp add: dec_value_def digit_char_code)
  next
    case False
    have "dec_value (dec_digits n) =
        10 * dec_value (dec_digits (n div 10)) + (of_char (digit_char (n mod 10)) - 48)"
      using False by (subst dec_digits.simps) (simp add: dec_value_snoc)
    also have "\<dots> = 10 * (n div 10) + n mod 10"
      using "1.IH" [OF False] by (simp add: digit_char_code)
    finally show ?thesis by simp
  qed
qed

lemma dec_digits_nonempty: "dec_digits n \<noteq> []"
  by (subst dec_digits.simps) simp

lemma hd_dec_digits: "0 < n \<Longrightarrow> hd (dec_digits n) \<noteq> CHR ''0''"
proof (induction n rule: dec_digits.induct)
  case (1 n)
  show ?case
  proof (cases "n < 10")
    case True
    then have "n \<in> {1, 2, 3, 4, 5, 6, 7, 8, 9}"
      using "1.prems" by auto
    then show ?thesis
      by (subst dec_digits.simps) (auto simp: digit_char_def)
  next
    case False
    then have "0 < n div 10" by simp
    then have "hd (dec_digits (n div 10)) \<noteq> CHR ''0''"
      using "1.IH" [OF False] by simp
    then show ?thesis
      using False dec_digits_nonempty [of "n div 10"]
      by (subst dec_digits.simps) simp
  qed
qed

lemma format_duration_spec_nonneg:
  "0 \<le> n \<Longrightarrow> format_duration (PInt n) = Inr (spec_format_duration n)"
proof -
  assume n: "0 \<le> n"
  have hh: "(n div 60) div 60 = n div 3600"
    using zdiv_zmult2_eq [of 60 n 60] by simp
  have "0 \<le> n div 3600"
    using n by (simp add: pos_imp_zdiv_nonneg_iff)
  then have "(n div 3600 \<noteq> 0) = (0 < n div 3600)"
    by auto
  then show ?thesis
    by (simp add: format_duration_decomp spec_format_duration_def hh Let_def)
qed

text \<open>
  C9. \<open>format_duration\<close> gives \<open>Unknown\<close> for \<open>None\<close>. For every number of seconds \<open>n\<close>
  from 0 up, with \<open>n = 60 M + s\<close> and \<open>M = 60 h + m\<close> (\<open>s\<close> and \<open>m\<close> the remainders, from 0
  to 59), it renders \<open>H:MM:SS\<close> when \<open>h\<close> is positive and \<open>M:SS\<close> otherwise, as the words
  of the specification say. The hours and, in the short form, the minutes are written as
  their decimal numeral without padding; the other parts as two digits, a zero in front
  of a value below ten. Seconds 0, 65 and 3725 give \<open>0:00\<close>, \<open>1:05\<close> and \<open>1:02:05\<close>.
\<close>

theorem format_duration_render:
  "0 \<le> n \<Longrightarrow> s = n mod 60 \<Longrightarrow> m = (n div 60) mod 60 \<Longrightarrow> h = (n div 60) div 60 \<Longrightarrow>
   format_duration PNone = Inr ''Unknown''
   \<and> n = 60 * (n div 60) + s \<and> n div 60 = 60 * h + m
   \<and> 0 \<le> s \<and> s < 60 \<and> 0 \<le> m \<and> m < 60 \<and> 0 \<le> h
   \<and> (0 < h \<longrightarrow>
        format_duration (PInt n) = Inr (fmt_d h @ '':'' @ fmt_02d m @ '':'' @ fmt_02d s))
   \<and> (\<not> 0 < h \<longrightarrow> format_duration (PInt n) = Inr (fmt_d m @ '':'' @ fmt_02d s))
   \<and> format_duration (PInt n) = Inr (spec_format_duration n)
   \<and> dec_value (fmt_d h) = nat h \<and> (0 < h \<longrightarrow> hd (fmt_d h) \<noteq> CHR ''0'')
   \<and> fmt_02d s = (if s < 10 then [CHR ''0'', digit_char (nat s)]
                  else [digit_char (nat s div 10), digit_char (nat s mod 10)])
   \<and> fmt_02d m = (if m < 10 then [CHR ''0'', digit_char (nat m)]
                  else [digit_char (nat m div 10), digit_char (nat m mod 10)])
   \<and> fmt_d m = (if m < 10 then [digit_char (nat m)]
                else [digit_char (nat m div 10), digit_char (nat m mod 10)])
   \<and> format_duration (PInt 0) = Inr ''0:00''
   \<and> format_duration (PInt 65) = Inr ''1:05''
   \<and> format_duration (PInt 3725) = Inr ''1:02:05''"
proof -
  assume n: "0 \<le> n" and s: "s = n mod 60" and m: "m = (n div 60) mod 60"
    and h: "h = (n div 60) div 60"
  have none: "format_duration PNone = Inr ''Unknown''"
    by (simp add: format_duration_def)
  have hh: "n div 3600 = h"
    using zdiv_zmult2_eq [of 60 n 60] h by simp
  have sum1: "n = 60 * (n div 60) + s"
    using s by simp
  have sum2: "n div 60 = 60 * h + m"
    using h m by (metis mult_div_mod_eq)
  have rs: "0 \<le> s" "s < 60" and rm: "0 \<le> m" "m < 60"
    using s m by simp_all
  have h0: "0 \<le> h"
    using n h by (simp add: pos_imp_zdiv_nonneg_iff)
  have long: "0 < h \<longrightarrow>
      format_duration (PInt n) = Inr (fmt_d h @ '':'' @ fmt_02d m @ '':'' @ fmt_02d s)"
    using s m hh by (simp add: format_duration_decomp)
  have short: "\<not> 0 < h \<longrightarrow> format_duration (PInt n) = Inr (fmt_d m @ '':'' @ fmt_02d s)"
    using s m hh h0 by (simp add: format_duration_decomp)
  have spec: "format_duration (PInt n) = Inr (spec_format_duration n)"
    by (rule format_duration_spec_nonneg [OF n])
  have val: "dec_value (fmt_d h) = nat h"
    using h0 by (simp add: fmt_d_def dec_value_dec_digits)
  have lead: "0 < h \<longrightarrow> hd (fmt_d h) \<noteq> CHR ''0''"
    using hd_dec_digits [of "nat h"] by (simp add: fmt_d_def)
  have e0: "format_duration (PInt 0) = Inr ''0:00''"
    by (simp add: format_duration_decomp fmt_d_def fmt_02d_def zfill_def dec_digits.simps
        digit_char_def)
  have e65: "format_duration (PInt 65) = Inr ''1:05''"
    by (simp add: format_duration_decomp fmt_d_def fmt_02d_def zfill_def dec_digits.simps
        digit_char_def)
  have e3725: "format_duration (PInt 3725) = Inr ''1:02:05''"
    by (simp add: format_duration_decomp fmt_d_def fmt_02d_def zfill_def dec_digits.simps
        digit_char_def)
  show ?thesis
    using none sum1 sum2 rs rm h0 long short spec val lead fmt_02d_two [OF rs]
      fmt_02d_two [OF rm] fmt_d_small [OF rm] e0 e65 e3725
    by blast
qed

theorem format_duration_render_witness:
  "(0::int) \<le> 3725 \<and> (5::int) = 3725 mod 60 \<and> (2::int) = (3725 div 60) mod 60
   \<and> (1::int) = (3725 div 60) div 60
   \<and> format_duration (PInt 3725) = Inr (fmt_d 1 @ '':'' @ fmt_02d 2 @ '':'' @ fmt_02d 5)
   \<and> format_duration (PInt 3725) = Inr (spec_format_duration 3725)
   \<and> fmt_02d 5 = [CHR ''0'', digit_char 5]"
proof -
  have n: "(0::int) \<le> 3725"
    by simp
  have a: "(5::int) = 3725 mod 60" and b: "(2::int) = (3725 div 60) mod 60"
    and c: "(1::int) = (3725 div 60) div 60"
    by simp_all
  note r = format_duration_render [OF n a b c]
  have long: "format_duration (PInt 3725) = Inr (fmt_d 1 @ '':'' @ fmt_02d 2 @ '':'' @ fmt_02d 5)"
    using r by simp
  have spec: "format_duration (PInt 3725) = Inr (spec_format_duration 3725)"
    using r by (elim conjE)
  have pad: "fmt_02d 5 = (if (5::int) < 10 then [CHR ''0'', digit_char (nat 5)]
                else [digit_char (nat 5 div 10), digit_char (nat 5 mod 10)])"
    using r by (elim conjE)
  have pad': "fmt_02d 5 = [CHR ''0'', digit_char 5]"
    by (subst pad) simp
  show ?thesis
    by (intro conjI n a b c long spec pad')
qed

section \<open>The fetch loop\<close>

lemma length_extract_all:
  "length (fst (extract_all env opts us w)) = length us"
proof (induction us arbitrary: w)
  case Nil
  show ?case by simp
next
  case (Cons u us)
  obtain r w' where rw: "extract_info env opts u w = (r, w')"
    by (cases "extract_info env opts u w")
  obtain rs w'' where rs: "extract_all env opts us w' = (rs, w'')"
    by (cases "extract_all env opts us w'")
  have "length rs = length us"
    using Cons.IH [of w'] rs by simp
  then show ?case
    by (simp add: rw rs)
qed

lemma fetch_entries_run:
  "fetch_entries env opts es videos st =
     (videos @ fetched (fst (extract_all env opts (entry_urls es) (world st))),
      st\<lparr>trace := trace st
              @ map (\<lambda>(u, r). Extract opts u r)
                  (zip (entry_urls es) (fst (extract_all env opts (entry_urls es) (world st)))),
         world := snd (extract_all env opts (entry_urls es) (world st))\<rparr>)"
proof (induction es arbitrary: videos st)
  case Nil
  show ?case by (simp add: entry_urls_def List.map_filter_simps)
next
  case (Cons e es)
  show ?case
  proof (cases "entry_url e")
    case None
    then show ?thesis
      using Cons.IH [of videos st] by (simp add: entry_urls_def List.map_filter_simps)
  next
    case (Some u)
    obtain r w where rw: "extract_info env opts u (world st) = (r, w)"
      by (cases "extract_info env opts u (world st)")
    define st' where "st' = st\<lparr>trace := trace st @ [Extract opts u r], world := w\<rparr>"
    have ce: "call_extract env opts u st = (r, st')"
      by (simp add: call_extract_def rw st'_def)
    have urls: "entry_urls (e # es) = u # entry_urls es"
      using Some by (simp add: entry_urls_def List.map_filter_simps)
    show ?thesis
    proof (cases r)
      case Raised
      then show ?thesis
        using Cons.IH [of videos st'] ce Some rw urls
        by (simp add: st'_def split: prod.splits)
    next
      case (Returned x)
      show ?thesis
      proof (cases x)
        case None
        then show ?thesis
          using Cons.IH [of videos st'] ce Some rw urls Returned
          by (simp add: st'_def split: prod.splits)
      next
        case (Some i)
        then show ?thesis
          using Cons.IH [of videos st'] Cons.IH [of "videos @ [i]" st'] ce \<open>entry_url e = Some u\<close>
            rw urls Returned
          by (simp add: st'_def split: prod.splits)
      qed
    qed
  qed
qed

lemma first_call:
  "extract_info env (ydl_opts mode) url (world st) = (r, w1) \<Longrightarrow>
   call_extract env (ydl_opts mode) url (st\<lparr>trace := trace st @ [Print fetching_msg]\<rparr>) =
     (r, st\<lparr>trace := trace st @ [Print fetching_msg, Extract (ydl_opts mode) url r],
           world := w1\<rparr>)"
  by (simp add: call_extract_def)

lemma fetch_single:
  "extract_info env (ydl_opts ''1'') url (world st) = (r, w1) \<Longrightarrow>
   fetch_videos_info env url ''1'' st =
     (case r of
        Raised \<Rightarrow> Inl invalid_link_msg
      | Returned None \<Rightarrow> Inl no_videos_msg
      | Returned (Some info) \<Rightarrow>
          if key_in ''title'' (attrs info) then Inr [info] else Inl no_videos_msg,
      st\<lparr>trace := trace st @ [Print fetching_msg, Extract (ydl_opts ''1'') url r],
         world := w1\<rparr>)"
  by (simp add: fetch_videos_info_def py_print_def first_call
      split: extract_outcome.splits option.splits)

lemma fetch_early:
  "extract_info env (ydl_opts mode) url (world st) = (r, w1) \<Longrightarrow>
   r = Raised \<or> r = Returned None \<Longrightarrow>
   fetch_videos_info env url mode st =
     (if r = Raised then Inl invalid_link_msg else Inl no_videos_msg,
      st\<lparr>trace := trace st @ [Print fetching_msg, Extract (ydl_opts mode) url r],
         world := w1\<rparr>)"
  by (auto simp add: fetch_videos_info_def py_print_def first_call)

lemma fetch_no_entries:
  "extract_info env (ydl_opts mode) url (world st) = (Returned (Some info), w1) \<Longrightarrow>
   mode \<noteq> ''1'' \<Longrightarrow> entries info = None \<or> entries info = Some [] \<Longrightarrow>
   fetch_videos_info env url mode st =
     (Inl no_videos_msg,
      st\<lparr>trace := trace st
              @ [Print fetching_msg, Extract (ydl_opts mode) url (Returned (Some info))],
         world := w1\<rparr>)"
  by (auto simp add: fetch_videos_info_def py_print_def first_call)

lemma fetch_collection:
  assumes "extract_info env (ydl_opts mode) url (world st) = (Returned (Some info), w1)"
    and "mode \<noteq> ''1''" and "entries info = Some es" and "es \<noteq> []"
  shows "fetch_videos_info env url mode st =
     (if fetched (fst (extract_all env (ydl_opts mode) (entry_urls es) w1)) = []
      then Inl no_videos_msg
      else Inr (fetched (fst (extract_all env (ydl_opts mode) (entry_urls es) w1))),
      st\<lparr>trace := trace st
              @ [Print fetching_msg, Extract (ydl_opts mode) url (Returned (Some info)),
                 Print (found_msg (length es) mode)]
              @ map (\<lambda>(u, r). Extract (ydl_opts mode) u r)
                  (zip (entry_urls es)
                     (fst (extract_all env (ydl_opts mode) (entry_urls es) w1))),
         world := snd (extract_all env (ydl_opts mode) (entry_urls es) w1)\<rparr>)"
  using assms
  by (simp add: fetch_videos_info_def first_call fetch_entries_run py_print_def Let_def)

lemma extract_calls_append:
  "extract_calls (xs @ ys) = extract_calls xs @ extract_calls ys"
  by (induction xs rule: extract_calls.induct) simp_all

lemma extract_calls_zip:
  "length rs = length us \<Longrightarrow>
   extract_calls (map (\<lambda>(u, r). Extract opts u r) (zip us rs)) = map (Pair opts) us"
  by (induction us arbitrary: rs) (auto simp: length_Suc_conv)

lemma msgs_differ: "invalid_link_msg \<noteq> no_videos_msg"
  by (simp add: invalid_link_msg_def no_videos_msg_def)

lemma flat_collection: "mode \<in> {''2'', ''3''} \<Longrightarrow> extract_flat (ydl_opts mode)"
  by (auto simp: ydl_opts_def)

lemma entry_url_in_urls: "e \<in> set es \<Longrightarrow> entry_url e = Some u \<Longrightarrow> u \<in> set (entry_urls es)"
  by (induction es) (auto simp: entry_urls_def List.map_filter_simps split: option.splits)

lemma fetched_none: "\<forall>r \<in> set os. r = Raised \<or> r = Returned None \<Longrightarrow> fetched os = []"
  by (induction os rule: fetched.induct) auto

lemma entry_url_None_iff:
  "entry_url e = None \<longleftrightarrow> \<not> key_in ''url'' e \<and> \<not> key_in ''id'' e"
  by (simp add: entry_url_def)

lemmas demo_simps =
  demo_env_def demo_extract_def demo_playlist_def demo_video_def st0_def ydl_opts_def
  entry_urls_def entry_url_def key_in_def dict_get_def info_truthy_def List.map_filter_simps

section \<open>Claims on fetching a playlist or a channel\<close>

text \<open>
  C4. In mode \<open>2\<close> or \<open>3\<close>, when the listing call returns entries, the fetch calls the
  extractor once for each entry that has a \<open>url\<close> or an \<open>id\<close>, in listing order, and for
  no other entry; an entry with neither is passed over. It prints nothing for an entry
  that is passed over or whose call raises or returns no record, and calls no URL twice.
  It returns the records the calls returned, in listing order, and the message
  \<open>No videos found\<close> when there is none, as when every call raises or returns \<open>None\<close>.
\<close>

theorem fetch_collection_result:
  "mode \<in> {''2'', ''3''} \<Longrightarrow>
   extract_info env (ydl_opts mode) url (world st) = (Returned (Some info), w1) \<Longrightarrow>
   entries info = Some es \<Longrightarrow> es \<noteq> [] \<Longrightarrow>
   os = fst (extract_all env (ydl_opts mode) (entry_urls es) w1) \<Longrightarrow>
   length os = length (entry_urls es)
   \<and> fst (fetch_videos_info env url mode st) =
       (if fetched os = [] then Inl no_videos_msg else Inr (fetched os))
   \<and> trace (snd (fetch_videos_info env url mode st)) =
       trace st
       @ [Print fetching_msg, Extract (ydl_opts mode) url (Returned (Some info)),
          Print (found_msg (length es) mode)]
       @ map (\<lambda>(u, r). Extract (ydl_opts mode) u r) (zip (entry_urls es) os)
   \<and> (\<forall>e. entry_url e = None \<longleftrightarrow> \<not> key_in ''url'' e \<and> \<not> key_in ''id'' e)
   \<and> ((\<forall>r \<in> set os. r = Raised \<or> r = Returned None) \<longrightarrow>
        fst (fetch_videos_info env url mode st) = Inl no_videos_msg)"
proof -
  assume mode: "mode \<in> {''2'', ''3''}"
    and first: "extract_info env (ydl_opts mode) url (world st) = (Returned (Some info), w1)"
    and es: "entries info = Some es" "es \<noteq> []"
    and os: "os = fst (extract_all env (ydl_opts mode) (entry_urls es) w1)"
  have m: "mode \<noteq> ''1''"
    using mode by auto
  note run = fetch_collection [OF first m es]
  have len: "length os = length (entry_urls es)"
    using os by (simp add: length_extract_all)
  have res: "fst (fetch_videos_info env url mode st) =
      (if fetched os = [] then Inl no_videos_msg else Inr (fetched os))"
    using os by (simp add: run)
  have tr: "trace (snd (fetch_videos_info env url mode st)) =
       trace st
       @ [Print fetching_msg, Extract (ydl_opts mode) url (Returned (Some info)),
          Print (found_msg (length es) mode)]
       @ map (\<lambda>(u, r). Extract (ydl_opts mode) u r) (zip (entry_urls es) os)"
    using os by (simp add: run)
  have allfail: "(\<forall>r \<in> set os. r = Raised \<or> r = Returned None) \<longrightarrow>
        fst (fetch_videos_info env url mode st) = Inl no_videos_msg"
    using res fetched_none [of os] by simp
  show ?thesis
    using len res tr allfail entry_url_None_iff by blast
qed

theorem fetch_collection_result_witness:
  "''2'' \<in> {''2'', ''3''}
   \<and> extract_info demo_env (ydl_opts ''2'') ''https://www.youtube.com/playlist?list=PL1''
        (world st0) = (Returned (Some demo_playlist), 1)
   \<and> entries demo_playlist \<noteq> Some []
   \<and> fst (fetch_videos_info demo_env ''https://www.youtube.com/playlist?list=PL1'' ''2'' st0) =
       Inr [demo_video ''v2'', demo_video ''v4'']"
proof -
  define es where "es = [[(''id'', PStr ''v1'')], [(''url'', PStr ''v2'')], [(''id'', PStr ''v3'')],
                      [(''id'', PStr ''v4'')], [(''id'', PStr ''v5'')]]"
  have mode: "''2'' \<in> {''2'', ''3''}"
    by simp
  have first: "extract_info demo_env (ydl_opts ''2'') ''https://www.youtube.com/playlist?list=PL1''
        (world st0) = (Returned (Some demo_playlist), 1)"
    by (simp add: demo_env_def demo_extract_def st0_def)
  have es: "entries demo_playlist = Some es" "es \<noteq> []"
    by (simp_all add: demo_playlist_def es_def)
  have os: "fetched (fst (extract_all demo_env (ydl_opts ''2'') (entry_urls es) 1)) =
      [demo_video ''v2'', demo_video ''v4'']"
    by (simp add: es_def demo_simps)
  have "fst (fetch_videos_info demo_env ''https://www.youtube.com/playlist?list=PL1'' ''2'' st0) =
      (if fetched (fst (extract_all demo_env (ydl_opts ''2'') (entry_urls es) 1)) = []
       then Inl no_videos_msg
       else Inr (fetched (fst (extract_all demo_env (ydl_opts ''2'') (entry_urls es) 1))))"
    using fetch_collection_result [OF mode first es refl] by (elim conjE)
  then have "fst (fetch_videos_info demo_env ''https://www.youtube.com/playlist?list=PL1'' ''2'' st0) =
       Inr [demo_video ''v2'', demo_video ''v4'']"
    unfolding os by simp
  then show ?thesis
    using mode first es by simp
qed

text \<open>
  C2, as the code has it. In mode \<open>2\<close> or \<open>3\<close>, when the listing call returns entries, the
  extraction calls of the fetch are the listing call and then one call for the URL of each
  entry that has one, in listing order. All of them are made with the options of the
  listing call, in which \<open>extract_flat\<close> is on. The records of a successful fetch are the
  records these calls returned.
\<close>

theorem fetch_collection_second_calls:
  "mode \<in> {''2'', ''3''} \<Longrightarrow>
   extract_info env (ydl_opts mode) url (world st) = (Returned (Some info), w1) \<Longrightarrow>
   entries info = Some es \<Longrightarrow> es \<noteq> [] \<Longrightarrow>
   extract_calls (trace (snd (fetch_videos_info env url mode st))) =
     extract_calls (trace st) @ (ydl_opts mode, url) # map (Pair (ydl_opts mode)) (entry_urls es)
   \<and> extract_flat (ydl_opts mode)
   \<and> (\<forall>e \<in> set es. \<forall>u. entry_url e = Some u \<longrightarrow>
         (ydl_opts mode, u) \<in> set (extract_calls (trace (snd (fetch_videos_info env url mode st)))))
   \<and> (\<forall>videos. fst (fetch_videos_info env url mode st) = Inr videos \<longrightarrow>
         videos = fetched (fst (extract_all env (ydl_opts mode) (entry_urls es) w1)))"
proof -
  assume mode: "mode \<in> {''2'', ''3''}"
    and first: "extract_info env (ydl_opts mode) url (world st) = (Returned (Some info), w1)"
    and es: "entries info = Some es" "es \<noteq> []"
  have m: "mode \<noteq> ''1''"
    using mode by auto
  note run = fetch_collection [OF first m es]
  have calls: "extract_calls (trace (snd (fetch_videos_info env url mode st))) =
     extract_calls (trace st) @ (ydl_opts mode, url) # map (Pair (ydl_opts mode)) (entry_urls es)"
    by (simp add: run extract_calls_append extract_calls_zip length_extract_all)
  have each: "\<forall>e \<in> set es. \<forall>u. entry_url e = Some u \<longrightarrow>
         (ydl_opts mode, u) \<in> set (extract_calls (trace (snd (fetch_videos_info env url mode st))))"
    unfolding calls using entry_url_in_urls by fastforce
  have vids: "\<forall>videos. fst (fetch_videos_info env url mode st) = Inr videos \<longrightarrow>
         videos = fetched (fst (extract_all env (ydl_opts mode) (entry_urls es) w1))"
    by (simp add: run)
  show ?thesis
    using calls flat_collection [OF mode] each vids by blast
qed

theorem fetch_collection_second_calls_witness:
  "''3'' \<in> {''2'', ''3''}
   \<and> extract_info demo_env (ydl_opts ''3'') ''https://www.youtube.com/playlist?list=PL1''
        (world st0) = (Returned (Some demo_playlist), 1)
   \<and> entries demo_playlist \<noteq> Some []
   \<and> extract_calls
        (trace (snd (fetch_videos_info demo_env ''https://www.youtube.com/playlist?list=PL1''
           ''3'' st0))) =
       map (Pair (ydl_opts ''3''))
         [''https://www.youtube.com/playlist?list=PL1'', ''https://youtu.be/v1'',
          ''https://youtu.be/v2'', ''https://youtu.be/v3'', ''https://youtu.be/v4'',
          ''https://youtu.be/v5'']"
proof -
  define es where "es = [[(''id'', PStr ''v1'')], [(''url'', PStr ''v2'')], [(''id'', PStr ''v3'')],
                      [(''id'', PStr ''v4'')], [(''id'', PStr ''v5'')]]"
  have mode: "''3'' \<in> {''2'', ''3''}"
    by simp
  have first: "extract_info demo_env (ydl_opts ''3'') ''https://www.youtube.com/playlist?list=PL1''
        (world st0) = (Returned (Some demo_playlist), 1)"
    by (simp add: demo_env_def demo_extract_def st0_def)
  have es: "entries demo_playlist = Some es" "es \<noteq> []"
    by (simp_all add: demo_playlist_def es_def)
  have urls: "entry_urls es = [''https://youtu.be/v1'',
          ''https://youtu.be/v2'', ''https://youtu.be/v3'', ''https://youtu.be/v4'',
          ''https://youtu.be/v5'']"
    by (simp add: es_def entry_urls_def entry_url_def key_in_def dict_get_def
        List.map_filter_simps)
  have tr: "trace st0 = []"
    by (simp add: st0_def)
  have "extract_calls
        (trace (snd (fetch_videos_info demo_env ''https://www.youtube.com/playlist?list=PL1''
           ''3'' st0))) =
       map (Pair (ydl_opts ''3''))
         [''https://www.youtube.com/playlist?list=PL1'', ''https://youtu.be/v1'',
          ''https://youtu.be/v2'', ''https://youtu.be/v3'', ''https://youtu.be/v4'',
          ''https://youtu.be/v5'']"
    using fetch_collection_second_calls [OF mode first es] by (simp add: urls tr)
  then show ?thesis
    using mode first es by simp
qed

text \<open>
  C2 as written fails: the second calls are not made with shallow extraction off. For a
  playlist of five entries, each of the six calls carries \<open>extract_flat = True\<close>.
\<close>

theorem second_call_flat_counterexample:
  "extract_calls
     (trace (snd (fetch_videos_info demo_env ''https://www.youtube.com/playlist?list=PL1''
        ''2'' st0))) =
     [(ydl_opts ''2'', ''https://www.youtube.com/playlist?list=PL1''),
      (ydl_opts ''2'', ''https://youtu.be/v1''), (ydl_opts ''2'', ''https://youtu.be/v2''),
      (ydl_opts ''2'', ''https://youtu.be/v3''), (ydl_opts ''2'', ''https://youtu.be/v4''),
      (ydl_opts ''2'', ''https://youtu.be/v5'')]
   \<and> extract_flat (ydl_opts ''2'') = True"
  by (simp add: fetch_videos_info_def call_extract_def py_print_def Let_def demo_simps)

text \<open>
  C1, as the code has it. In mode \<open>2\<close> or \<open>3\<close> the first call is made with \<open>extract_flat\<close>
  on. When it raises, the fetch returns the message \<open>Invalid YouTube link\<close>. When it
  returns \<open>None\<close>, or a record with no \<open>entries\<close> or an empty list of them, the fetch
  returns the message \<open>No videos found\<close>. The two messages differ.
\<close>

theorem fetch_collection_first_phase:
  "mode \<in> {''2'', ''3''} \<Longrightarrow>
   extract_info env (ydl_opts mode) url (world st) = (r, w1) \<Longrightarrow>
   (r = Raised \<longrightarrow> fst (fetch_videos_info env url mode st) = Inl invalid_link_msg)
   \<and> (r = Returned None \<longrightarrow> fst (fetch_videos_info env url mode st) = Inl no_videos_msg)
   \<and> (\<forall>info. r = Returned (Some info) \<and> (entries info = None \<or> entries info = Some []) \<longrightarrow>
         fst (fetch_videos_info env url mode st) = Inl no_videos_msg)
   \<and> invalid_link_msg \<noteq> no_videos_msg
   \<and> extract_calls (trace (snd (fetch_videos_info env url mode st)))
       ! length (extract_calls (trace st)) = (ydl_opts mode, url)
   \<and> extract_flat (ydl_opts mode)"
proof -
  assume mode: "mode \<in> {''2'', ''3''}"
    and first: "extract_info env (ydl_opts mode) url (world st) = (r, w1)"
  have m: "mode \<noteq> ''1''"
    using mode by auto
  have a: "r = Raised \<longrightarrow> fst (fetch_videos_info env url mode st) = Inl invalid_link_msg"
    using fetch_early [OF first] by simp
  have b: "r = Returned None \<longrightarrow> fst (fetch_videos_info env url mode st) = Inl no_videos_msg"
    using fetch_early [OF first] by auto
  have c: "\<forall>info. r = Returned (Some info) \<and> (entries info = None \<or> entries info = Some []) \<longrightarrow>
         fst (fetch_videos_info env url mode st) = Inl no_videos_msg"
  proof (intro allI impI)
    fix info
    assume h: "r = Returned (Some info) \<and> (entries info = None \<or> entries info = Some [])"
    then have f: "extract_info env (ydl_opts mode) url (world st) = (Returned (Some info), w1)"
      using first by simp
    show "fst (fetch_videos_info env url mode st) = Inl no_videos_msg"
      using fetch_no_entries [OF f m] h by simp
  qed
  have pre: "\<exists>evs. trace (snd (fetch_videos_info env url mode st)) =
      trace st @ Print fetching_msg # Extract (ydl_opts mode) url r # evs"
  proof (cases r)
    case Raised
    then show ?thesis using fetch_early [OF first] by simp
  next
    case (Returned x)
    show ?thesis
    proof (cases x)
      case None
      then show ?thesis using fetch_early [OF first] Returned by simp
    next
      case (Some info)
      have f: "extract_info env (ydl_opts mode) url (world st) = (Returned (Some info), w1)"
        using first Returned Some by simp
      show ?thesis
      proof (cases "entries info = None \<or> entries info = Some []")
        case True
        show ?thesis
          using fetch_no_entries [OF f m True] Returned Some by simp
      next
        case False
        then obtain es where es: "entries info = Some es" "es \<noteq> []"
          by (cases "entries info") auto
        show ?thesis
          using fetch_collection [OF f m es] Returned Some by simp
      qed
    qed
  qed
  then obtain evs where "trace (snd (fetch_videos_info env url mode st)) =
      trace st @ Print fetching_msg # Extract (ydl_opts mode) url r # evs"
    by blast
  then have d: "extract_calls (trace (snd (fetch_videos_info env url mode st)))
       ! length (extract_calls (trace st)) = (ydl_opts mode, url)"
    by (simp add: extract_calls_append)
  show ?thesis
    using a b c d msgs_differ flat_collection [OF mode] by blast
qed

theorem fetch_collection_first_phase_witness:
  "''3'' \<in> {''2'', ''3''}
   \<and> extract_info demo_env (ydl_opts ''3'') ''https://youtu.be/v3'' (world st0) = (Returned None, 1)
   \<and> fst (fetch_videos_info demo_env ''https://youtu.be/v3'' ''3'' st0) = Inl no_videos_msg"
proof -
  have mode: "''3'' \<in> {''2'', ''3''}"
    by simp
  have first: "extract_info demo_env (ydl_opts ''3'') ''https://youtu.be/v3'' (world st0) =
      (Returned None, 1)"
    by (simp add: demo_env_def demo_extract_def st0_def)
  show ?thesis
    using mode first fetch_collection_first_phase [OF mode first] by blast
qed

text \<open>
  C1 as written fails where the first call raises: for a playlist link on which the
  extractor raises, the fetch in mode \<open>2\<close> answers \<open>Invalid YouTube link\<close>, not
  \<open>No videos found\<close>.
\<close>

theorem fetch_collection_raise_counterexample:
  "fst (extract_info demo_env (ydl_opts ''2'') ''https://www.youtube.com/playlist?list=gone''
          (world st0)) = Raised
   \<and> fst (fetch_videos_info demo_env ''https://www.youtube.com/playlist?list=gone'' ''2'' st0) =
       Inl invalid_link_msg
   \<and> fst (fetch_videos_info demo_env ''https://www.youtube.com/playlist?list=gone'' ''2'' st0) \<noteq>
       Inl no_videos_msg"
  by (simp add: fetch_videos_info_def call_extract_def py_print_def Let_def demo_env_def
      demo_extract_def st0_def invalid_link_msg_def no_videos_msg_def)

section \<open>Claims on fetching a single video\<close>

text \<open>
  C5. In mode \<open>1\<close> the fetch prints its progress line and calls the extractor once, for
  the link, with \<open>extract_flat\<close> off. When the call raises, it returns the message
  \<open>Invalid YouTube link\<close>; when the returned record has no \<open>title\<close> key, or nothing is
  returned, the message \<open>No videos found\<close>; otherwise the list of that one record.
\<close>

theorem fetch_single_video:
  "extract_info env (ydl_opts ''1'') url (world st) = (r, w1) \<Longrightarrow>
   \<not> extract_flat (ydl_opts ''1'')
   \<and> snd (fetch_videos_info env url ''1'' st) =
       st\<lparr>trace := trace st @ [Print fetching_msg, Extract (ydl_opts ''1'') url r], world := w1\<rparr>
   \<and> (r = Raised \<longrightarrow> fst (fetch_videos_info env url ''1'' st) = Inl invalid_link_msg)
   \<and> (\<forall>info. r = Returned (Some info) \<and> \<not> key_in ''title'' (attrs info) \<longrightarrow>
         fst (fetch_videos_info env url ''1'' st) = Inl no_videos_msg)
   \<and> (\<forall>info. r = Returned (Some info) \<and> key_in ''title'' (attrs info) \<longrightarrow>
         fst (fetch_videos_info env url ''1'' st) = Inr [info])
   \<and> (r = Returned None \<longrightarrow> fst (fetch_videos_info env url ''1'' st) = Inl no_videos_msg)"
proof -
  assume first: "extract_info env (ydl_opts ''1'') url (world st) = (r, w1)"
  have flat: "\<not> extract_flat (ydl_opts ''1'')"
    by (simp add: ydl_opts_def)
  show ?thesis
    using flat by (simp add: fetch_single [OF first])
qed

theorem fetch_single_video_witness:
  "extract_info demo_env (ydl_opts ''1'') ''https://youtu.be/v2'' (world st0) =
     (Returned (Some (demo_video ''v2'')), 1)
   \<and> key_in ''title'' (attrs (demo_video ''v2''))
   \<and> fst (fetch_videos_info demo_env ''https://youtu.be/v2'' ''1'' st0) = Inr [demo_video ''v2'']"
proof -
  have first: "extract_info demo_env (ydl_opts ''1'') ''https://youtu.be/v2'' (world st0) =
     (Returned (Some (demo_video ''v2'')), 1)"
    by (simp add: demo_env_def demo_extract_def st0_def)
  have title: "key_in ''title'' (attrs (demo_video ''v2''))"
    by (simp add: key_in_def demo_video_def)
  show ?thesis
    using first title fetch_single_video [OF first] by blast
qed

text \<open>
  C10. In every mode, when the first call returns \<open>None\<close> without raising, the fetch
  stops there with the message \<open>No videos found\<close>, which is not the message
  \<open>Invalid YouTube link\<close>. The options of every mode have \<open>ignoreerrors\<close> on.
\<close>

theorem fetch_none_is_no_videos:
  "extract_info env (ydl_opts mode) url (world st) = (Returned None, w1) \<Longrightarrow>
   fetch_videos_info env url mode st =
     (Inl no_videos_msg,
      st\<lparr>trace := trace st @ [Print fetching_msg, Extract (ydl_opts mode) url (Returned None)],
         world := w1\<rparr>)
   \<and> no_videos_msg \<noteq> invalid_link_msg
   \<and> ignoreerrors (ydl_opts mode)"
proof -
  assume first: "extract_info env (ydl_opts mode) url (world st) = (Returned None, w1)"
  have "ignoreerrors (ydl_opts mode)"
    by (simp add: ydl_opts_def)
  then show ?thesis
    using fetch_early [OF first] msgs_differ by auto
qed

theorem fetch_none_is_no_videos_witness:
  "extract_info demo_env (ydl_opts ''1'') ''https://youtu.be/v3'' (world st0) = (Returned None, 1)
   \<and> fst (fetch_videos_info demo_env ''https://youtu.be/v3'' ''1'' st0) = Inl no_videos_msg
   \<and> fst (fetch_videos_info demo_env ''https://youtu.be/v3'' ''1'' st0) \<noteq> Inl invalid_link_msg"
proof -
  have first: "extract_info demo_env (ydl_opts ''1'') ''https://youtu.be/v3'' (world st0) =
      (Returned None, 1)"
    by (simp add: demo_env_def demo_extract_def st0_def)
  show ?thesis
    using first fetch_none_is_no_videos [OF first] by auto
qed

section \<open>Claims on the notifier\<close>

lemma truthy_iff: "truthy x \<longleftrightarrow> x \<noteq> PNone \<and> x \<noteq> PStr [] \<and> x \<noteq> PInt 0"
  by (cases x) auto

lemma dict_get_absent: "\<not> key_in k d \<Longrightarrow> dict_get d k dflt = dflt"
  by (simp add: key_in_def dict_get_def)

lemma caption_link:
  "caption env video = Inr c \<Longrightarrow>
   \<exists>x pre post. canonical_url video = Inr x \<and> c = pre @ link_label @ py_str x @ [CHR 0x0A] @ post"
proof -
  assume c: "caption env video = Inr c"
  then obtain x where x: "canonical_url video = Inr x"
    by (cases "canonical_url video") (auto simp: caption_def)
  obtain d where d: "format_duration (dict_get (attrs video) ''duration'' PNone) = Inr d"
    using c x by (cases "format_duration (dict_get (attrs video) ''duration'' PNone)")
      (auto simp: caption_def)
  have "c = (title_label @ py_str (dict_get (attrs video) ''title'' (PStr ''Unknown Title''))
              @ [CHR 0x0A]) @ link_label @ py_str x @ [CHR 0x0A]
            @ (duration_label @ d @ [CHR 0x0A] @ date_label
               @ format_date env (dict_get (attrs video) ''upload_date'' (PStr '''')))"
    using c x d by (simp add: caption_def)
  then show ?thesis
    using x by blast
qed

text \<open>
  C8, as the code has it. The link of a record is its \<open>webpage_url\<close> when that field is
  true, that is present and neither \<open>None\<close> nor empty nor zero; else its \<open>url\<close> when that
  is true; else \<open>https://youtu.be/\<close> followed by its \<open>id\<close>, the empty string standing in
  for a missing \<open>id\<close>. A caption that is built carries that link after its link label. A
  record with only the \<open>id\<close> \<open>abc123\<close> has the link \<open>https://youtu.be/abc123\<close>.
\<close>

theorem canonical_url_fallback:
  "w = dict_get (attrs video) ''webpage_url'' PNone \<Longrightarrow>
   u = dict_get (attrs video) ''url'' PNone \<Longrightarrow>
   (truthy w \<longrightarrow> canonical_url video = Inr w)
   \<and> (\<not> truthy w \<and> truthy u \<longrightarrow> canonical_url video = Inr u)
   \<and> (\<forall>i. \<not> truthy w \<and> \<not> truthy u \<and> dict_get (attrs video) ''id'' (PStr '''') = PStr i \<longrightarrow>
         canonical_url video = Inr (PStr (''https://youtu.be/'' @ i)))
   \<and> (truthy w \<longleftrightarrow> w \<noteq> PNone \<and> w \<noteq> PStr [] \<and> w \<noteq> PInt 0)
   \<and> (truthy u \<longleftrightarrow> u \<noteq> PNone \<and> u \<noteq> PStr [] \<and> u \<noteq> PInt 0)
   \<and> (\<not> key_in ''webpage_url'' (attrs video) \<longrightarrow> \<not> truthy w)
   \<and> (\<not> key_in ''url'' (attrs video) \<longrightarrow> \<not> truthy u)
   \<and> (\<forall>c. caption env video = Inr c \<longrightarrow>
         (\<exists>x pre post. canonical_url video = Inr x
            \<and> c = pre @ link_label @ py_str x @ [CHR 0x0A] @ post))
   \<and> canonical_url \<lparr>attrs = [(''id'', PStr ''abc123'')], entries = None\<rparr> =
       Inr (PStr ''https://youtu.be/abc123'')"
proof -
  assume w: "w = dict_get (attrs video) ''webpage_url'' PNone"
    and u: "u = dict_get (attrs video) ''url'' PNone"
  have a: "truthy w \<longrightarrow> canonical_url video = Inr w"
    using w by (simp add: canonical_url_def)
  have b: "\<not> truthy w \<and> truthy u \<longrightarrow> canonical_url video = Inr u"
    using w u by (simp add: canonical_url_def)
  have c: "\<forall>i. \<not> truthy w \<and> \<not> truthy u \<and> dict_get (attrs video) ''id'' (PStr '''') = PStr i \<longrightarrow>
         canonical_url video = Inr (PStr (''https://youtu.be/'' @ i))"
    using w u by (simp add: canonical_url_def)
  have d: "\<not> key_in ''webpage_url'' (attrs video) \<longrightarrow> \<not> truthy w"
    using w by (simp add: dict_get_absent)
  have e: "\<not> key_in ''url'' (attrs video) \<longrightarrow> \<not> truthy u"
    using u by (simp add: dict_get_absent)
  have f: "canonical_url \<lparr>attrs = [(''id'', PStr ''abc123'')], entries = None\<rparr> =
       Inr (PStr ''https://youtu.be/abc123'')"
    by (simp add: canonical_url_def dict_get_def)
  show ?thesis
    using a b c d e f truthy_iff [of w] truthy_iff [of u] caption_link [of env video]
    by blast
qed

theorem canonical_url_fallback_witness:
  "PNone = dict_get (attrs (demo_video ''v2'')) ''webpage_url'' PNone
   \<and> PNone = dict_get (attrs (demo_video ''v2'')) ''url'' PNone
   \<and> dict_get (attrs (demo_video ''v2'')) ''id'' (PStr '''') = PStr ''v2''
   \<and> canonical_url (demo_video ''v2'') = Inr (PStr ''https://youtu.be/v2'')"
proof -
  have w: "PNone = dict_get (attrs (demo_video ''v2'')) ''webpage_url'' PNone"
    and u: "PNone = dict_get (attrs (demo_video ''v2'')) ''url'' PNone"
    and i: "dict_get (attrs (demo_video ''v2'')) ''id'' (PStr '''') = PStr ''v2''"
    by (simp_all add: demo_video_def dict_get_def)
  have "canonical_url (demo_video ''v2'') = Inr (PStr (''https://youtu.be/'' @ ''v2''))"
    using canonical_url_fallback [OF w u, where env = demo_env] i by simp
  then show ?thesis
    using w u i by simp
qed

text \<open>
  C8 as written fails for a field that is present and empty: with an empty
  \<open>webpage_url\<close> and a \<open>url\<close>, the link is the \<open>url\<close>, not the \<open>webpage_url\<close>.
\<close>

theorem canonical_url_empty_field_counterexample:
  "key_in ''webpage_url''
     (attrs \<lparr>attrs = [(''webpage_url'', PStr ''''),
                      (''url'', PStr ''https://www.youtube.com/watch?v=abc123'')],
             entries = None\<rparr>)
   \<and> canonical_url
        \<lparr>attrs = [(''webpage_url'', PStr ''''),
                  (''url'', PStr ''https://www.youtube.com/watch?v=abc123'')],
         entries = None\<rparr> = Inr (PStr ''https://www.youtube.com/watch?v=abc123'')
   \<and> dict_get
        (attrs \<lparr>attrs = [(''webpage_url'', PStr ''''),
                         (''url'', PStr ''https://www.youtube.com/watch?v=abc123'')],
                entries = None\<rparr>) ''webpage_url'' PNone = PStr ''''"
  by (simp add: key_in_def canonical_url_def dict_get_def)

lemma send_video_info_run:
  "caption env video = Inr cap \<Longrightarrow>
   bot_send env (request_for video cap) (world st) = (r, w1) \<Longrightarrow>
   send_video_info env video st =
     (case r of Sent \<Rightarrow> Inr True | RaisedTelegramError \<Rightarrow> Inr False | RaisedOther \<Rightarrow> Inl BotError,
      st\<lparr>trace := trace st @ [Send (request_for video cap) r], world := w1\<rparr>)"
  by (simp add: send_video_info_def call_bot_def split: send_outcome.splits)

text \<open>
  C6. For a record whose caption can be built, the notifier makes one call on the bot and
  no more: \<open>send_photo\<close> with the thumbnail as photo and the caption attached when the
  \<open>thumbnail\<close> field is true, that is present and neither \<open>None\<close> nor empty nor zero,
  and \<open>send_message\<close> with the caption as text otherwise, both to the fixed chat. It
  returns \<open>True\<close> when the call returns and \<open>False\<close> when the call raises a
  \<open>TelegramError\<close>, which does not leave the notifier.
\<close>

theorem send_video_info_paths:
  "caption env video = Inr cap \<Longrightarrow>
   thumbnail = dict_get (attrs video) ''thumbnail'' PNone \<Longrightarrow>
   req = (if truthy thumbnail then SendPhoto TELEGRAM_CHAT_ID thumbnail cap
          else SendMessage TELEGRAM_CHAT_ID cap) \<Longrightarrow>
   bot_send env req (world st) = (r, w1) \<Longrightarrow>
   snd (send_video_info env video st) = st\<lparr>trace := trace st @ [Send req r], world := w1\<rparr>
   \<and> (r = Sent \<longrightarrow> fst (send_video_info env video st) = Inr True)
   \<and> (r = RaisedTelegramError \<longrightarrow> fst (send_video_info env video st) = Inr False)
   \<and> (r = RaisedOther \<longrightarrow> fst (send_video_info env video st) = Inl BotError)
   \<and> (truthy thumbnail \<longleftrightarrow>
        thumbnail \<noteq> PNone \<and> thumbnail \<noteq> PStr [] \<and> thumbnail \<noteq> PInt 0)
   \<and> (\<not> key_in ''thumbnail'' (attrs video) \<longrightarrow> \<not> truthy thumbnail)"
proof -
  assume cap: "caption env video = Inr cap"
    and th: "thumbnail = dict_get (attrs video) ''thumbnail'' PNone"
    and req: "req = (if truthy thumbnail then SendPhoto TELEGRAM_CHAT_ID thumbnail cap
          else SendMessage TELEGRAM_CHAT_ID cap)"
    and bot: "bot_send env req (world st) = (r, w1)"
  have rq: "request_for video cap = req"
    using th req by (simp add: request_for_def)
  have run: "send_video_info env video st =
     (case r of Sent \<Rightarrow> Inr True | RaisedTelegramError \<Rightarrow> Inr False | RaisedOther \<Rightarrow> Inl BotError,
      st\<lparr>trace := trace st @ [Send req r], world := w1\<rparr>)"
    using send_video_info_run [OF cap, of st r w1] bot rq by simp
  have absent: "\<not> key_in ''thumbnail'' (attrs video) \<longrightarrow> \<not> truthy thumbnail"
    using th by (simp add: dict_get_absent)
  show ?thesis
    using absent truthy_iff [of thumbnail] by (simp add: run)
qed

theorem send_video_info_paths_witness:
  "caption demo_env \<lparr>attrs = [(''id'', PStr ''v2''), (''thumbnail'', PStr ''https://i.ytimg.com/vi/v2/0.jpg'')], entries = None\<rparr>
     = Inr (title_label @ ''Unknown Title'' @ [CHR 0x0A] @ link_label @ ''https://youtu.be/v2''
            @ [CHR 0x0A] @ duration_label @ ''Unknown'' @ [CHR 0x0A] @ date_label @ ''Unknown'')
   \<and> bot_send demo_env
        (SendPhoto TELEGRAM_CHAT_ID (PStr ''https://i.ytimg.com/vi/v2/0.jpg'')
           (title_label @ ''Unknown Title'' @ [CHR 0x0A] @ link_label @ ''https://youtu.be/v2''
            @ [CHR 0x0A] @ duration_label @ ''Unknown'' @ [CHR 0x0A] @ date_label @ ''Unknown''))
        (world st0) = (RaisedTelegramError, 1)
   \<and> fst (send_video_info demo_env
        \<lparr>attrs = [(''id'', PStr ''v2''), (''thumbnail'', PStr ''https://i.ytimg.com/vi/v2/0.jpg'')], entries = None\<rparr>
        st0) = Inr False"
proof -
  define video where "video =
    \<lparr>attrs = [(''id'', PStr ''v2''), (''thumbnail'', PStr ''https://i.ytimg.com/vi/v2/0.jpg'')],
     entries = None\<rparr>"
  define cap where "cap = title_label @ ''Unknown Title'' @ [CHR 0x0A] @ link_label
    @ ''https://youtu.be/v2'' @ [CHR 0x0A] @ duration_label @ ''Unknown'' @ [CHR 0x0A]
    @ date_label @ ''Unknown''"
  have c: "caption demo_env video = Inr cap"
    by (simp add: video_def cap_def caption_def canonical_url_def dict_get_def
        format_duration_def format_date_def demo_env_def)
  have th: "PStr ''https://i.ytimg.com/vi/v2/0.jpg'' = dict_get (attrs video) ''thumbnail'' PNone"
    by (simp add: video_def dict_get_def)
  have rq: "SendPhoto TELEGRAM_CHAT_ID (PStr ''https://i.ytimg.com/vi/v2/0.jpg'') cap =
      (if truthy (PStr ''https://i.ytimg.com/vi/v2/0.jpg'')
       then SendPhoto TELEGRAM_CHAT_ID (PStr ''https://i.ytimg.com/vi/v2/0.jpg'') cap
       else SendMessage TELEGRAM_CHAT_ID cap)"
    by simp
  have bot: "bot_send demo_env
      (SendPhoto TELEGRAM_CHAT_ID (PStr ''https://i.ytimg.com/vi/v2/0.jpg'') cap) (world st0) =
      (RaisedTelegramError, 1)"
    by (simp add: demo_env_def st0_def)
  have "fst (send_video_info demo_env video st0) = Inr False"
    using send_video_info_paths [OF c th rq bot] by blast
  then show ?thesis
    using c bot unfolding video_def cap_def by blast
qed

section \<open>The sending loop\<close>

lemma length_bot_all: "length (fst (bot_all env qs w)) = length qs"
proof (induction qs arbitrary: w)
  case Nil
  show ?case by simp
next
  case (Cons q qs)
  obtain r w' where rw: "bot_send env q w = (r, w')"
    by (cases "bot_send env q w")
  obtain rs w'' where rs: "bot_all env qs w' = (rs, w'')"
    by (cases "bot_all env qs w'")
  have "length rs = length qs"
    using Cons.IH [of w'] rs by simp
  then show ?case
    by (simp add: rw rs)
qed

lemma bot_all_outcomes:
  "\<forall>req w. fst (bot_send env req w) \<noteq> RaisedOther \<Longrightarrow>
   \<forall>r \<in> set (fst (bot_all env qs w)). r = Sent \<or> r = RaisedTelegramError"
proof (induction qs arbitrary: w)
  case Nil
  show ?case by simp
next
  case (Cons q qs)
  obtain r w' where rw: "bot_send env q w = (r, w')"
    by (cases "bot_send env q w")
  obtain rs w'' where rs: "bot_all env qs w' = (rs, w'')"
    by (cases "bot_all env qs w'")
  have "r \<noteq> RaisedOther"
    using Cons.prems rw by (metis fst_conv)
  then have r: "r = Sent \<or> r = RaisedTelegramError"
    by (cases r) auto
  have "\<forall>x \<in> set rs. x = Sent \<or> x = RaisedTelegramError"
    using Cons.IH [OF Cons.prems, of w'] rs by simp
  then show ?case
    using r by (simp add: rw rs)
qed

lemma send_each_run:
  "\<forall>v \<in> set videos. \<exists>c. caption env v = Inr c \<Longrightarrow>
   \<forall>req w. fst (bot_send env req w) \<noteq> RaisedOther \<Longrightarrow>
   send_each env videos st =
     (Inr (),
      st\<lparr>trace := trace st
              @ concat (map (\<lambda>(v, r). record_events env v r)
                  (zip videos (fst (bot_all env (map (the_request env) videos) (world st))))),
         world := snd (bot_all env (map (the_request env) videos) (world st))\<rparr>)"
proof (induction videos arbitrary: st)
  case Nil
  show ?case by simp
next
  case (Cons v videos)
  obtain c where c: "caption env v = Inr c"
    using Cons.prems(1) by auto
  have rq: "the_request env v = request_for v c"
    by (simp add: the_request_def c)
  obtain r w' where rw: "bot_send env (request_for v c) (world st) = (r, w')"
    by (cases "bot_send env (request_for v c) (world st)")
  obtain rs w'' where rs: "bot_all env (map (the_request env) videos) w' = (rs, w'')"
    by (cases "bot_all env (map (the_request env) videos) w'")
  have "r \<noteq> RaisedOther"
    using Cons.prems(2) rw by (metis fst_conv)
  then have r: "r = Sent \<or> r = RaisedTelegramError"
    by (cases r) auto
  have rest: "\<forall>v \<in> set videos. \<exists>c. caption env v = Inr c"
    using Cons.prems(1) by simp
  define st1 where "st1 = py_print (sending_msg (dict_get (attrs v) ''title'' (PStr ''Unknown Title''))) st"
  have w1: "world st1 = world st"
    by (simp add: st1_def py_print_def)
  have sv: "send_video_info env v st1 =
     (case r of Sent \<Rightarrow> Inr True | RaisedTelegramError \<Rightarrow> Inr False | RaisedOther \<Rightarrow> Inl BotError,
      st1\<lparr>trace := trace st1 @ [Send (request_for v c) r], world := w'\<rparr>)"
    using send_video_info_run [OF c, of st1 r w'] rw w1 by simp
  from r show ?case
  proof
    assume s: "r = Sent"
    show ?thesis
      using Cons.IH [OF rest Cons.prems(2),
          of "sleep (1 / 2) (st1\<lparr>trace := trace st1 @ [Send (request_for v c) r], world := w'\<rparr>)"]
        sv s rw rs rq
      by (simp add: st1_def [symmetric] Let_def)
        (simp add: st1_def py_print_def sleep_def record_events_def rq)
  next
    assume s: "r = RaisedTelegramError"
    show ?thesis
      using Cons.IH [OF rest Cons.prems(2),
          of "py_print retry_msg (st1\<lparr>trace := trace st1 @ [Send (request_for v c) r], world := w'\<rparr>)"]
        sv s rw rs rq
      by (simp add: st1_def [symmetric] Let_def)
        (simp add: st1_def py_print_def sleep_def record_events_def rq)
  qed
qed

lemma demo_caption:
  "caption demo_env (demo_video i) =
     Inr (title_label @ ''Video '' @ i @ [CHR 0x0A] @ link_label @ ''https://youtu.be/'' @ i
          @ [CHR 0x0A] @ duration_label @ ''1:05'' @ [CHR 0x0A] @ date_label @ ''Unknown'')"
proof -
  have d: "format_duration (PInt 65) = Inr ''1:05''"
    by (simp add: format_duration_decomp fmt_d_def fmt_02d_def zfill_def dec_digits.simps
        digit_char_def)
  show ?thesis
    by (simp add: caption_def canonical_url_def dict_get_def demo_video_def d format_date_def
        demo_env_def)
qed

section \<open>Claims on the sending phase\<close>

text \<open>
  C3, as the code has it. When every caption can be built and the bot raises nothing but
  \<open>TelegramError\<close>, the sending phase ends normally and does, for each record in order,
  exactly this: it prints the status line, makes the one send of the notifier, and then
  sleeps half a second if the send returned, or prints the warning if it raised. A failed
  send neither stops the loop nor is repeated, and no delay follows it. After the last
  record the phase prints the closing line.
\<close>

theorem sending_phase_trace:
  "\<forall>v \<in> set videos. \<exists>c. caption env v = Inr c \<Longrightarrow>
   \<forall>req w. fst (bot_send env req w) \<noteq> RaisedOther \<Longrightarrow>
   os = fst (bot_all env (map (the_request env) videos) (world st)) \<Longrightarrow>
   length os = length videos
   \<and> (\<forall>r \<in> set os. r = Sent \<or> r = RaisedTelegramError)
   \<and> fst (sending_phase env videos st) = Inr ()
   \<and> trace (snd (sending_phase env videos st)) =
       trace st @ concat (map (\<lambda>(v, r). record_events env v r) (zip videos os))
       @ [Print done_msg]
   \<and> (\<forall>v. record_events env v Sent =
         [Print (sending_msg (dict_get (attrs v) ''title'' (PStr ''Unknown Title''))),
          Send (the_request env v) Sent, Sleep (1 / 2)])
   \<and> (\<forall>v. record_events env v RaisedTelegramError =
         [Print (sending_msg (dict_get (attrs v) ''title'' (PStr ''Unknown Title''))),
          Send (the_request env v) RaisedTelegramError, Print retry_msg])"
proof -
  assume caps: "\<forall>v \<in> set videos. \<exists>c. caption env v = Inr c"
    and bot: "\<forall>req w. fst (bot_send env req w) \<noteq> RaisedOther"
    and os: "os = fst (bot_all env (map (the_request env) videos) (world st))"
  note run = send_each_run [OF caps bot, of st]
  have len: "length os = length videos"
    using os by (simp add: length_bot_all)
  have kinds: "\<forall>r \<in> set os. r = Sent \<or> r = RaisedTelegramError"
    using os bot_all_outcomes [OF bot] by simp
  have res: "fst (sending_phase env videos st) = Inr ()"
    by (simp add: sending_phase_def run)
  have tr: "trace (snd (sending_phase env videos st)) =
       trace st @ concat (map (\<lambda>(v, r). record_events env v r) (zip videos os))
       @ [Print done_msg]"
    using os by (simp add: sending_phase_def run py_print_def)
  have ev: "(\<forall>v. record_events env v Sent =
         [Print (sending_msg (dict_get (attrs v) ''title'' (PStr ''Unknown Title''))),
          Send (the_request env v) Sent, Sleep (1 / 2)])
   \<and> (\<forall>v. record_events env v RaisedTelegramError =
         [Print (sending_msg (dict_get (attrs v) ''title'' (PStr ''Unknown Title''))),
          Send (the_request env v) RaisedTelegramError, Print retry_msg])"
    by (simp add: record_events_def)
  show ?thesis
    using len kinds res tr ev by blast
qed

theorem sending_phase_trace_witness:
  "(\<exists>c. caption demo_env (demo_video ''v2'') = Inr c)
   \<and> (\<exists>c. caption demo_env (demo_video ''v4'') = Inr c)
   \<and> (\<forall>req w. fst (bot_send demo_env req w) \<noteq> RaisedOther)
   \<and> fst (bot_all demo_env (map (the_request demo_env) [demo_video ''v2'', demo_video ''v4''])
             (world st0)) = [RaisedTelegramError, Sent]
   \<and> fst (sending_phase demo_env [demo_video ''v2'', demo_video ''v4''] st0) = Inr ()
   \<and> trace (snd (sending_phase demo_env [demo_video ''v2'', demo_video ''v4''] st0)) =
       [Print (sending_msg (PStr ''Video v2'')),
        Send (the_request demo_env (demo_video ''v2'')) RaisedTelegramError,
        Print retry_msg,
        Print (sending_msg (PStr ''Video v4'')),
        Send (the_request demo_env (demo_video ''v4'')) Sent,
        Sleep (1 / 2),
        Print done_msg]"
proof -
  have caps: "\<forall>v \<in> set [demo_video ''v2'', demo_video ''v4'']. \<exists>c. caption demo_env v = Inr c"
    by (simp add: demo_caption)
  have bot: "\<forall>req w. fst (bot_send demo_env req w) \<noteq> RaisedOther"
    by (simp add: demo_env_def)
  have os: "[RaisedTelegramError, Sent] =
      fst (bot_all demo_env (map (the_request demo_env) [demo_video ''v2'', demo_video ''v4''])
             (world st0))"
    by (simp add: demo_env_def st0_def)
  note r = sending_phase_trace [OF caps bot os]
  have res: "fst (sending_phase demo_env [demo_video ''v2'', demo_video ''v4''] st0) = Inr ()"
    using r by blast
  have "trace (snd (sending_phase demo_env [demo_video ''v2'', demo_video ''v4''] st0)) =
      trace st0
      @ concat (map (\<lambda>(v, r). record_events demo_env v r)
          (zip [demo_video ''v2'', demo_video ''v4''] [RaisedTelegramError, Sent]))
      @ [Print done_msg]"
    using r by (elim conjE)
  then have tr: "trace (snd (sending_phase demo_env [demo_video ''v2'', demo_video ''v4''] st0)) =
       [Print (sending_msg (PStr ''Video v2'')),
        Send (the_request demo_env (demo_video ''v2'')) RaisedTelegramError,
        Print retry_msg,
        Print (sending_msg (PStr ''Video v4'')),
        Send (the_request demo_env (demo_video ''v4'')) Sent,
        Sleep (1 / 2),
        Print done_msg]"
    by (simp add: record_events_def st0_def demo_video_def dict_get_def)
  have c2: "\<exists>c. caption demo_env (demo_video ''v2'') = Inr c"
    and c4: "\<exists>c. caption demo_env (demo_video ''v4'') = Inr c"
    using caps by simp_all
  show ?thesis
    using c2 c4 bot os [symmetric] res tr by blast
qed

text \<open>
  C3 as written fails after a failed attempt: when the first of two sends raises and the
  second returns, the only delay of the run comes after the second send, none between the
  two attempts.
\<close>

theorem no_delay_after_failed_send_counterexample:
  "timeline (trace (snd (sending_phase demo_env [demo_video ''v2'', demo_video ''v4''] st0))) =
     [Inl RaisedTelegramError, Inl Sent, Inr (1 / 2)]"
proof -
  have bot: "bot_send demo_env req w = (if w = 0 then RaisedTelegramError else Sent, Suc w)"
    for req w
    by (simp add: demo_env_def)
  show ?thesis
    by (simp add: sending_phase_def send_video_info_def call_bot_def demo_caption bot
        py_print_def sleep_def Let_def st0_def)
qed

end
